theory Spec2Isabelle
  imports Main
begin

section \<open>Constants and data model (constants.ts, types.ts)\<close>

text \<open>
  \<^verbatim>\<open>export const GRID_SIZE = 5; export const MAX_HEIGHT = 5;\<close>
  Every function of the engine refers to the two constants by name. The embedding takes
  them as the arguments \<open>G\<close> (GRID_SIZE) and \<open>H\<close> (MAX_HEIGHT) of each function, so that
  each place where the source writes one or the other stays visible; the shipped values
  are the two definitions below.
\<close>

definition GRID_SIZE :: nat where
  "GRID_SIZE = 5"

definition MAX_HEIGHT :: nat where
  "MAX_HEIGHT = 5"

text \<open>
  \<^verbatim>\<open>interface Voxel { x: number; y: number; z: number; id: string; color?: string }\<close>
  Coordinates are integers (possibly negative or beyond the grid); an absent colour is
  \<open>None\<close>.
\<close>

record voxel =
  vx :: int
  vy :: int
  vz :: int
  vid :: string
  vcolor :: "string option"

text \<open>\<^verbatim>\<open>interface GridState { top: boolean[][]; front: boolean[][]; side: boolean[][] }\<close>\<close>

record grid_state =
  top_grid :: "bool list list"
  front_grid :: "bool list list"
  side_grid :: "bool list list"

text \<open>\<^verbatim>\<open>interface Stats { count: number; surfaceArea: number; volume: number }\<close>\<close>

record stats =
  count :: nat
  surfaceArea :: nat
  volume :: nat

section \<open>JavaScript arrays of arrays\<close>

text \<open>
  \<open>TypeError\<close>: a member access on \<open>undefined\<close> or \<open>null\<close>, which is what
  \<open>g[r][c]\<close> does when \<open>r\<close> is not an index of \<open>g\<close>.
  \<open>SparseWrite\<close>: a write \<open>g[r][c] = v\<close> at a column that is not an index of the row
  would add a property or grow the row with holes; the embedding keeps rows dense and
  stops there.
\<close>

datatype failure = TypeError | SparseWrite

text \<open>\<open>g[r]\<close> followed by a member access: the row, or TypeError when \<open>g[r]\<close> is undefined.\<close>

definition row_at :: "'a list list \<Rightarrow> int \<Rightarrow> failure + 'a list" where
  "row_at g r = (if 0 \<le> r \<and> r < int (length g) then Inr (g ! nat r) else Inl TypeError)"

text \<open>\<open>row[c]\<close>: the element, or \<open>None\<close> for undefined when \<open>c\<close> is not an index.\<close>

definition elem_at :: "'a list \<Rightarrow> int \<Rightarrow> 'a option" where
  "elem_at row c = (if 0 \<le> c \<and> c < int (length row) then Some (row ! nat c) else None)"

text \<open>The read \<open>g[r][c]\<close>.\<close>

definition get_cell :: "'a list list \<Rightarrow> int \<Rightarrow> int \<Rightarrow> failure + 'a option" where
  "get_cell g r c = (case row_at g r of Inl e \<Rightarrow> Inl e | Inr row \<Rightarrow> Inr (elem_at row c))"

text \<open>The write \<open>g[r][c] = v\<close>.\<close>

definition set_cell :: "'a list list \<Rightarrow> int \<Rightarrow> int \<Rightarrow> 'a \<Rightarrow> failure + 'a list list" where
  "set_cell g r c v =
     (case row_at g r of
        Inl e \<Rightarrow> Inl e
      | Inr row \<Rightarrow>
          if 0 \<le> c \<and> c < int (length row) then Inr (g[nat r := row[nat c := v]])
          else Inl SparseWrite)"

text \<open>A condition \<open>if (g[r][c])\<close> on a boolean grid: undefined is falsy.\<close>

definition truthy :: "bool option \<Rightarrow> bool" where
  "truthy b = (case b of None \<Rightarrow> False | Some t \<Rightarrow> t)"

text \<open>\<^verbatim>\<open>Array(rows).fill(null).map(() => Array(cols).fill(v))\<close>\<close>

definition new_grid :: "nat \<Rightarrow> nat \<Rightarrow> 'a \<Rightarrow> 'a list list" where
  "new_grid rows cols v = replicate rows (replicate cols v)"

text \<open>\<open>xs.forEach(f)\<close> on a state that \<open>f\<close> mutates; an exception ends the loop.\<close>

fun forEach :: "('s \<Rightarrow> 'a \<Rightarrow> failure + 's) \<Rightarrow> 'a list \<Rightarrow> 's \<Rightarrow> failure + 's" where
  "forEach f [] s = Inr s"
| "forEach f (v # vs) s = (case f s v of Inl e \<Rightarrow> Inl e | Inr s' \<Rightarrow> forEach f vs s')"

section \<open>Projection (voxelEngine.ts, project3DTo2D)\<close>

text \<open>
  The body of the \<open>forEach\<close>: three guarded writes. The rows of \<open>front\<close> and \<open>side\<close> are
  indexed by \<open>MAX_HEIGHT - 1 - v.y\<close>.
\<close>

definition project_voxel :: "nat \<Rightarrow> nat \<Rightarrow> grid_state \<Rightarrow> voxel \<Rightarrow> failure + grid_state" where
  "project_voxel G H g v =
     (case (if 0 \<le> vx v \<and> vx v < int G \<and> 0 \<le> vz v \<and> vz v < int G
            then set_cell (top_grid g) (vz v) (vx v) True else Inr (top_grid g)) of
        Inl e \<Rightarrow> Inl e
      | Inr t \<Rightarrow>
     (case (if 0 \<le> vx v \<and> vx v < int G \<and> 0 \<le> vy v \<and> vy v < int H
            then set_cell (front_grid g) (int H - 1 - vy v) (vx v) True else Inr (front_grid g)) of
        Inl e \<Rightarrow> Inl e
      | Inr f \<Rightarrow>
     (case (if 0 \<le> vz v \<and> vz v < int G \<and> 0 \<le> vy v \<and> vy v < int H
            then set_cell (side_grid g) (int H - 1 - vy v) (vz v) True else Inr (side_grid g)) of
        Inl e \<Rightarrow> Inl e
      | Inr s \<Rightarrow> Inr \<lparr>top_grid = t, front_grid = f, side_grid = s\<rparr>)))"

text \<open>All three grids are allocated with \<open>GRID_SIZE\<close> rows of \<open>GRID_SIZE\<close> cells.\<close>

definition project3DTo2D :: "nat \<Rightarrow> nat \<Rightarrow> voxel list \<Rightarrow> failure + grid_state" where
  "project3DTo2D G H voxels =
     forEach (project_voxel G H) voxels
       \<lparr>top_grid = new_grid G G False,
        front_grid = new_grid G G False,
        side_grid = new_grid G G False\<rparr>"

section \<open>Coordinate keys (the template string \<open>`${x},${y},${z}`\<close>)\<close>

text \<open>
  The decimal rendering of an integer, as JavaScript's number-to-string conversion gives
  it for integers in the exactly representable range: the digits, most significant first,
  after a minus sign for a negative number.
\<close>

definition digit_char :: "nat \<Rightarrow> char" where
  "digit_char d = ''0123456789'' ! d"

fun show_nat :: "nat \<Rightarrow> string" where
  "show_nat n = (if n < 10 then [digit_char n] else show_nat (n div 10) @ [digit_char (n mod 10)])"

declare show_nat.simps [simp del]

definition show_int :: "int \<Rightarrow> string" where
  "show_int i = (if i < 0 then CHR ''-'' # show_nat (nat (- i)) else show_nat (nat i))"

definition coord_key :: "int \<Rightarrow> int \<Rightarrow> int \<Rightarrow> string" where
  "coord_key x y z = show_int x @ '','' @ show_int y @ '','' @ show_int z"

section \<open>Statistics (voxelEngine.ts, getVoxelSet and calculateStats)\<close>

definition getVoxelSet :: "voxel list \<Rightarrow> string set" where
  "getVoxelSet voxels = set (map (\<lambda>v. coord_key (vx v) (vy v) (vz v)) voxels)"

text \<open>The six neighbour coordinates, in the order of the source's array literal.\<close>

definition neighbors :: "voxel \<Rightarrow> (int \<times> int \<times> int) list" where
  "neighbors v =
     [(vx v + 1, vy v, vz v), (vx v - 1, vy v, vz v),
      (vx v, vy v + 1, vz v), (vx v, vy v - 1, vz v),
      (vx v, vy v, vz v + 1), (vx v, vy v, vz v - 1)]"

text \<open>The inner \<open>forEach\<close>: one increment for each neighbour key the set does not hold.\<close>

definition count_exposed :: "string set \<Rightarrow> nat \<Rightarrow> (int \<times> int \<times> int) list \<Rightarrow> nat" where
  "count_exposed voxelSet sa ns =
     foldl (\<lambda>a (nx, ny, nz). if coord_key nx ny nz \<notin> voxelSet then a + 1 else a) sa ns"

definition calculateStats :: "voxel list \<Rightarrow> stats" where
  "calculateStats voxels =
     (let voxelSet = getVoxelSet voxels;
          sa = foldl (\<lambda>a v. count_exposed voxelSet a (neighbors v)) 0 voxels;
          cnt = length voxels
      in \<lparr>count = cnt, surfaceArea = sa, volume = cnt\<rparr>)"

section \<open>Reconstruction (voxelEngine.ts, getFirstActiveColumn and intersect2DTo3D)\<close>

text \<open>
  The inner loop of getFirstActiveColumn for the column \<open>c\<close>, over the rows \<open>rs\<close>: whether
  it reaches \<open>return c\<close>. The read \<open>grid[r][c]\<close> throws when the grid has no row \<open>r\<close>.
\<close>

fun column_active :: "bool list list \<Rightarrow> nat \<Rightarrow> nat list \<Rightarrow> failure + bool" where
  "column_active grid c [] = Inr False"
| "column_active grid c (r # rs) =
     (case get_cell grid (int r) (int c) of
        Inl e \<Rightarrow> Inl e
      | Inr b \<Rightarrow> if truthy b then Inr True else column_active grid c rs)"

text \<open>The outer loop over the columns \<open>cs\<close>; \<open>-1\<close> when it ends without a return.\<close>

fun first_active_column :: "bool list list \<Rightarrow> nat list \<Rightarrow> nat list \<Rightarrow> failure + int" where
  "first_active_column grid rs [] = Inr (- 1)"
| "first_active_column grid rs (c # cs) =
     (case column_active grid c rs of
        Inl e \<Rightarrow> Inl e
      | Inr found \<Rightarrow> if found then Inr (int c) else first_active_column grid rs cs)"

text \<open>Both loops run to \<open>GRID_SIZE\<close>, whichever grid is passed.\<close>

definition getFirstActiveColumn :: "nat \<Rightarrow> bool list list \<Rightarrow> failure + int" where
  "getFirstActiveColumn G grid = first_active_column grid [0..<G] [0..<G]"

text \<open>The labelled loop \<open>rowLoop\<close> that finds \<open>minZ_Top\<close>: rows outside, columns inside.\<close>

fun row_active :: "bool list list \<Rightarrow> nat \<Rightarrow> nat list \<Rightarrow> failure + bool" where
  "row_active grid r [] = Inr False"
| "row_active grid r (c # cs) =
     (case get_cell grid (int r) (int c) of
        Inl e \<Rightarrow> Inl e
      | Inr b \<Rightarrow> if truthy b then Inr True else row_active grid r cs)"

fun first_active_row :: "bool list list \<Rightarrow> nat list \<Rightarrow> nat list \<Rightarrow> failure + int" where
  "first_active_row grid cs [] = Inr (- 1)"
| "first_active_row grid cs (r # rs) =
     (case row_active grid r cs of
        Inl e \<Rightarrow> Inl e
      | Inr found \<Rightarrow> if found then Inr (int r) else first_active_row grid cs rs)"

text \<open>The voxel pushed by the loop: coordinates and id, no colour.\<close>

definition new_voxel :: "int \<Rightarrow> int \<Rightarrow> int \<Rightarrow> voxel" where
  "new_voxel x y z = \<lparr>vx = x, vy = y, vz = z, vid = coord_key x y z, vcolor = None\<rparr>"

text \<open>
  The body of the innermost loop, up to the test \<open>hasTop && hasFront && hasSide\<close>. The
  read of \<open>top\<close> is unguarded; the reads of \<open>front\<close> and \<open>side\<close> are guarded on the column
  only.
\<close>

definition voxel_test ::
  "nat \<Rightarrow> nat \<Rightarrow> grid_state \<Rightarrow> int \<Rightarrow> int \<Rightarrow> nat \<Rightarrow> nat \<Rightarrow> nat \<Rightarrow> failure + bool" where
  "voxel_test G H grids shiftX shiftZ x y z =
     (case get_cell (top_grid grids) (int z) (int x) of
        Inl e \<Rightarrow> Inl e
      | Inr hasTop \<Rightarrow>
     (let frontX = int x + shiftX; sideZ = int z + shiftZ in
     (case (if 0 \<le> frontX \<and> frontX < int G
            then get_cell (front_grid grids) (int H - 1 - int y) frontX
            else Inr (Some False)) of
        Inl e \<Rightarrow> Inl e
      | Inr hasFront \<Rightarrow>
     (case (if 0 \<le> sideZ \<and> sideZ < int G
            then get_cell (side_grid grids) (int H - 1 - int y) sideZ
            else Inr (Some False)) of
        Inl e \<Rightarrow> Inl e
      | Inr hasSide \<Rightarrow> Inr (truthy hasTop \<and> truthy hasFront \<and> truthy hasSide)))))"

definition loop_z ::
  "nat \<Rightarrow> nat \<Rightarrow> grid_state \<Rightarrow> int \<Rightarrow> int \<Rightarrow> nat \<Rightarrow> nat \<Rightarrow> voxel list \<Rightarrow> nat \<Rightarrow> failure + voxel list" where
  "loop_z G H grids shiftX shiftZ x y newVoxels z =
     (case voxel_test G H grids shiftX shiftZ x y z of
        Inl e \<Rightarrow> Inl e
      | Inr b \<Rightarrow> Inr (if b then newVoxels @ [new_voxel (int x) (int y) (int z)] else newVoxels))"

definition loop_y ::
  "nat \<Rightarrow> nat \<Rightarrow> grid_state \<Rightarrow> int \<Rightarrow> int \<Rightarrow> nat \<Rightarrow> voxel list \<Rightarrow> nat \<Rightarrow> failure + voxel list" where
  "loop_y G H grids shiftX shiftZ x newVoxels y =
     forEach (loop_z G H grids shiftX shiftZ x y) [0..<G] newVoxels"

definition loop_x ::
  "nat \<Rightarrow> nat \<Rightarrow> grid_state \<Rightarrow> int \<Rightarrow> int \<Rightarrow> voxel list \<Rightarrow> nat \<Rightarrow> failure + voxel list" where
  "loop_x G H grids shiftX shiftZ newVoxels x =
     forEach (loop_y G H grids shiftX shiftZ x) [0..<H] newVoxels"

definition intersect2DTo3D :: "nat \<Rightarrow> nat \<Rightarrow> grid_state \<Rightarrow> failure + voxel list" where
  "intersect2DTo3D G H grids =
     (case getFirstActiveColumn G (top_grid grids) of Inl e \<Rightarrow> Inl e | Inr minX_Top \<Rightarrow>
     (case first_active_row (top_grid grids) [0..<G] [0..<G] of Inl e \<Rightarrow> Inl e | Inr minZ_Top \<Rightarrow>
     (case getFirstActiveColumn G (front_grid grids) of Inl e \<Rightarrow> Inl e | Inr minX_Front \<Rightarrow>
     (case getFirstActiveColumn G (side_grid grids) of Inl e \<Rightarrow> Inl e | Inr minZ_Side \<Rightarrow>
     (let shiftX = (if minX_Top \<noteq> - 1 \<and> minX_Front \<noteq> - 1 then minX_Front - minX_Top else 0);
          shiftZ = (if minZ_Top \<noteq> - 1 \<and> minZ_Side \<noteq> - 1 then minZ_Side - minZ_Top else 0)
      in forEach (loop_x G H grids shiftX shiftZ) [0..<G] [])))))"

section \<open>Annotation grids (voxelEngine.ts, generate*ViewNumbers)\<close>

text \<open>
  The body of generateTopViewNumbers' \<open>forEach\<close>. The comparison reads \<open>grid[v.z][v.x]\<close>
  with no guard: an absent row throws, and an absent cell reads as undefined, for which
  \<open>undefined < v.y + 1\<close> is false, so nothing is written.
\<close>

definition top_number_step :: "int list list \<Rightarrow> voxel \<Rightarrow> failure + int list list" where
  "top_number_step grid v =
     (case get_cell grid (vz v) (vx v) of
        Inl e \<Rightarrow> Inl e
      | Inr None \<Rightarrow> Inr grid
      | Inr (Some cur) \<Rightarrow>
          if cur < vy v + 1 then set_cell grid (vz v) (vx v) (vy v + 1) else Inr grid)"

text \<open>\<^verbatim>\<open>grid.map(row => row.map(val => val === 0 ? null : val))\<close>; \<open>None\<close> is null.\<close>

definition null_zeros :: "int list list \<Rightarrow> int option list list" where
  "null_zeros grid = map (map (\<lambda>val. if val = 0 then None else Some val)) grid"

definition generateTopViewNumbers :: "nat \<Rightarrow> voxel list \<Rightarrow> failure + int option list list" where
  "generateTopViewNumbers G voxels =
     (case forEach top_number_step voxels (new_grid G G 0) of
        Inl e \<Rightarrow> Inl e
      | Inr grid \<Rightarrow> Inr (null_zeros grid))"

text \<open>
  The guarded increment \<open>grid[row][col] += 1\<close> shared by the front and side generators:
  a read of the cell and a write of its successor. An undefined cell would give NaN and
  a write outside the row.
\<close>

definition count_step :: "nat \<Rightarrow> nat \<Rightarrow> int list list \<Rightarrow> int \<Rightarrow> int \<Rightarrow> failure + int list list" where
  "count_step G H grid row col =
     (if 0 \<le> row \<and> row < int H \<and> 0 \<le> col \<and> col < int G
      then (case get_cell grid row col of
              Inl e \<Rightarrow> Inl e
            | Inr None \<Rightarrow> Inl SparseWrite
            | Inr (Some n) \<Rightarrow> set_cell grid row col (n + 1))
      else Inr grid)"

definition generateFrontViewNumbers :: "nat \<Rightarrow> nat \<Rightarrow> voxel list \<Rightarrow> failure + int option list list" where
  "generateFrontViewNumbers G H voxels =
     (case forEach (\<lambda>grid v. count_step G H grid (int H - 1 - vy v) (vx v)) voxels (new_grid H G 0) of
        Inl e \<Rightarrow> Inl e
      | Inr grid \<Rightarrow> Inr (null_zeros grid))"

definition generateSideViewNumbers :: "nat \<Rightarrow> nat \<Rightarrow> voxel list \<Rightarrow> failure + int option list list" where
  "generateSideViewNumbers G H voxels =
     (case forEach (\<lambda>grid v. count_step G H grid (int H - 1 - vy v) (vz v)) voxels (new_grid H G 0) of
        Inl e \<Rightarrow> Inl e
      | Inr grid \<Rightarrow> Inr (null_zeros grid))"

section \<open>Adding a voxel (App.tsx, handleAddVoxel)\<close>

datatype ViewMode = Edit3D | Blueprint2D

text \<open>
  What a render of the component gives the handler it creates: the voxel list of that
  render (\<open>voxels\<close>), the mode and the selected colour.
\<close>

record app_state =
  st_voxels :: "voxel list"
  st_mode :: ViewMode
  st_selectedColor :: string

text \<open>
  The handler tests the collision on the list of its render and appends through
  \<open>setVoxels(prev => [...prev, v])\<close>, whose function is applied to the live list
  \<open>prev\<close>. The result is the live list after the call. The two lists are the same one
  only when the component has rendered since the live list last changed.
\<close>

definition handleAddVoxel ::
  "nat \<Rightarrow> nat \<Rightarrow> app_state \<Rightarrow> voxel list \<Rightarrow> int \<Rightarrow> int \<Rightarrow> int \<Rightarrow> voxel list" where
  "handleAddVoxel G H st prev x y z =
     (if st_mode st = Blueprint2D then prev
      else if x < 0 \<or> x \<ge> int G \<or> z < 0 \<or> z \<ge> int G \<or> y < 0 \<or> y \<ge> int H then prev
      else
        (let exists = list_ex (\<lambda>v. vx v = x \<and> vy v = y \<and> vz v = z) (st_voxels st) in
         if \<not> exists
         then prev @
                [\<lparr>vx = x, vy = y, vz = z, vid = coord_key x y z,
                  vcolor = Some (st_selectedColor st)\<rparr>]
         else prev))"


section \<open>Decoding a shared puzzle (shareUtils, decodeVoxels)\<close>

text \<open>
  What \<open>JSON.parse\<close> returns. Numbers are kept abstract in \<open>'n\<close>; an object is its
  members in the order of the text.
\<close>

datatype 'n json =
    JNull
  | JBool bool
  | JNum 'n
  | JStr string
  | JArr "'n json list"
  | JObj "(string \<times> 'n json) list"

text \<open>
  The member read \<open>v.k\<close> for the keys the decoder uses (\<open>x\<close>, \<open>y\<close>, \<open>z\<close>, \<open>c\<close>): it throws
  on null; an object gives its member (the last one of that name) or undefined; numbers,
  booleans, strings and arrays have no member of these names. \<open>None\<close> is undefined.
\<close>

fun member :: "'n json \<Rightarrow> string \<Rightarrow> failure + 'n json option" where
  "member JNull k = Inl TypeError"
| "member (JObj kvs) k = Inr (map_of (rev kvs) k)"
| "member v k = Inr None"

text \<open>
  The string conversion that a template literal applies to a value; \<open>num_str\<close> is the
  conversion of numbers. An array is its elements joined by commas, a null element being
  the empty string. An object is \<open>[object Object]\<close>, unless it has a member named
  \<open>toString\<close>: a parsed value is never a function, so the conversion finds no method
  that returns a primitive and throws a TypeError.
\<close>

fun to_string :: "('n \<Rightarrow> string) \<Rightarrow> 'n json \<Rightarrow> failure + string"
  and join_elements :: "('n \<Rightarrow> string) \<Rightarrow> 'n json list \<Rightarrow> failure + string" where
  "to_string num_str JNull = Inr ''null''"
| "to_string num_str (JBool b) = Inr (if b then ''true'' else ''false'')"
| "to_string num_str (JNum n) = Inr (num_str n)"
| "to_string num_str (JStr s) = Inr s"
| "to_string num_str (JArr xs) = join_elements num_str xs"
| "to_string num_str (JObj kvs) =
     (if ''toString'' \<in> fst ` set kvs then Inl TypeError else Inr ''[object Object]'')"
| "join_elements num_str [] = Inr []"
| "join_elements num_str (x # xs) =
     (case (if x = JNull then Inr [] else to_string num_str x) of
        Inl e \<Rightarrow> Inl e
      | Inr s \<Rightarrow>
          if xs = [] then Inr s
          else (case join_elements num_str xs of
                  Inl e \<Rightarrow> Inl e
                | Inr t \<Rightarrow> Inr (s @ '','' @ t)))"

definition template_string :: "('n \<Rightarrow> string) \<Rightarrow> 'n json option \<Rightarrow> failure + string" where
  "template_string num_str v =
     (case v of None \<Rightarrow> Inr ''undefined'' | Some j \<Rightarrow> to_string num_str j)"

text \<open>
  A decoded voxel: the decoder copies the members without looking at them, so each
  field holds whatever value the record had.
\<close>

record 'n decoded_voxel =
  dx :: "'n json option"
  dy :: "'n json option"
  dz :: "'n json option"
  did :: string
  dcolor :: "'n json option"

text \<open>The callback of \<open>compactData.map\<close>, the fields in the order of the object literal.\<close>

definition decode_record :: "('n \<Rightarrow> string) \<Rightarrow> 'n json \<Rightarrow> failure + 'n decoded_voxel" where
  "decode_record num_str v =
     (case member v ''x'' of Inl e \<Rightarrow> Inl e | Inr x \<Rightarrow>
     (case member v ''y'' of Inl e \<Rightarrow> Inl e | Inr y \<Rightarrow>
     (case member v ''z'' of Inl e \<Rightarrow> Inl e | Inr z \<Rightarrow>
     (case template_string num_str x of Inl e \<Rightarrow> Inl e | Inr sx \<Rightarrow>
     (case template_string num_str y of Inl e \<Rightarrow> Inl e | Inr sy \<Rightarrow>
     (case template_string num_str z of Inl e \<Rightarrow> Inl e | Inr sz \<Rightarrow>
     (case member v ''c'' of Inl e \<Rightarrow> Inl e | Inr c \<Rightarrow>
        Inr \<lparr>dx = x, dy = y, dz = z, did = sx @ '','' @ sy @ '','' @ sz, dcolor = c\<rparr>)))))))"

text \<open>\<open>xs.map(f)\<close> with a callback that may throw.\<close>

fun map_throwing :: "('a \<Rightarrow> failure + 'b) \<Rightarrow> 'a list \<Rightarrow> failure + 'b list" where
  "map_throwing f [] = Inr []"
| "map_throwing f (x # xs) =
     (case f x of
        Inl e \<Rightarrow> Inl e
      | Inr y \<Rightarrow> (case map_throwing f xs of Inl e \<Rightarrow> Inl e | Inr ys \<Rightarrow> Inr (y # ys)))"

text \<open>
  \<open>atob\<close>, \<open>decodeURIComponent\<close> and \<open>JSON.parse\<close> belong to the platform and are
  arguments here; each returns its value or the exception it throws (\<open>Inl\<close>). The whole
  body is inside \<open>try\<close>, and the \<open>catch\<close> returns null for any exception: \<open>None\<close>.
\<close>

definition decodeVoxels ::
  "(string \<Rightarrow> 'e + string) \<Rightarrow> (string \<Rightarrow> 'e + string) \<Rightarrow> (string \<Rightarrow> 'e + 'n json) \<Rightarrow>
   ('n \<Rightarrow> string) \<Rightarrow> string \<Rightarrow> 'n decoded_voxel list option" where
  "decodeVoxels atob decodeURIComponent JSON_parse num_str encoded =
     (case atob encoded of Inl e \<Rightarrow> None | Inr b \<Rightarrow>
     (case decodeURIComponent b of Inl e \<Rightarrow> None | Inr jsonString \<Rightarrow>
     (case JSON_parse jsonString of Inl e \<Rightarrow> None | Inr compactData \<Rightarrow>
     (case compactData of
        JArr xs \<Rightarrow>
          (case map_throwing (decode_record num_str) xs of Inl e \<Rightarrow> None | Inr vs \<Rightarrow> Some vs)
      | _ \<Rightarrow> None))))"

section \<open>Notions used to state the properties\<close>

text \<open>A grid with \<open>rows\<close> rows of \<open>cols\<close> cells each.\<close>

definition rect :: "nat \<Rightarrow> nat \<Rightarrow> 'a list list \<Rightarrow> bool" where
  "rect rows cols g = (length g = rows \<and> list_all (\<lambda>row. length row = cols) g)"

definition grids_ok :: "nat \<Rightarrow> grid_state \<Rightarrow> bool" where
  "grids_ok G g = (rect G G (top_grid g) \<and> rect G G (front_grid g) \<and> rect G G (side_grid g))"

text \<open>The grid after a write of \<open>true\<close> inside it.\<close>

definition mark :: "bool list list \<Rightarrow> int \<Rightarrow> int \<Rightarrow> bool list list" where
  "mark g r c = g[nat r := (g ! nat r)[nat c := True]]"

text \<open>The cell of each view that a voxel falls on.\<close>

definition top_hit :: "voxel \<Rightarrow> nat \<Rightarrow> nat \<Rightarrow> bool" where
  "top_hit v z x = (vz v = int z \<and> vx v = int x)"

definition front_hit :: "nat \<Rightarrow> voxel \<Rightarrow> nat \<Rightarrow> nat \<Rightarrow> bool" where
  "front_hit H v r x = (0 \<le> vy v \<and> vy v < int H \<and> int H - 1 - vy v = int r \<and> vx v = int x)"

definition side_hit :: "nat \<Rightarrow> voxel \<Rightarrow> nat \<Rightarrow> nat \<Rightarrow> bool" where
  "side_hit H v r z = (0 \<le> vy v \<and> vy v < int H \<and> int H - 1 - vy v = int r \<and> vz v = int z)"

text \<open>The coordinate triple of a voxel, the six axis directions, and a step along one.\<close>

definition coords :: "voxel \<Rightarrow> int \<times> int \<times> int" where
  "coords v = (vx v, vy v, vz v)"

definition directions :: "(int \<times> int \<times> int) list" where
  "directions = [(1, 0, 0), (- 1, 0, 0), (0, 1, 0), (0, - 1, 0), (0, 0, 1), (0, 0, - 1)]"

fun shift_coord :: "int \<times> int \<times> int \<Rightarrow> int \<times> int \<times> int \<Rightarrow> int \<times> int \<times> int" where
  "shift_coord (x, y, z) (a, b, c) = (x + a, y + b, z + c)"

definition opposite :: "int \<times> int \<times> int \<Rightarrow> int \<times> int \<times> int" where
  "opposite d = (case d of (a, b, c) \<Rightarrow> (- a, - b, - c))"

text \<open>The directions in which the cell \<open>c\<close> has no neighbour in the set \<open>C\<close>.\<close>

definition open_dirs :: "(int \<times> int \<times> int) set \<Rightarrow> int \<times> int \<times> int \<Rightarrow> (int \<times> int \<times> int) set" where
  "open_dirs C c = {d \<in> set directions. shift_coord c d \<notin> C}"

text \<open>
  The exposed faces of a voxel list: the pairs of an occupied coordinate and a direction
  whose neighbouring coordinate no voxel of the list occupies.
\<close>

definition exposed_faces :: "voxel list \<Rightarrow> ((int \<times> int \<times> int) \<times> (int \<times> int \<times> int)) set" where
  "exposed_faces voxels =
     {(c, d). c \<in> coords ` set voxels \<and> d \<in> set directions \<and>
              shift_coord c d \<notin> coords ` set voxels}"

section \<open>The reference algorithm of the specification (Reconstructor)\<close>

text \<open>
  These definitions follow the specification's steps, not the source: the smallest column
  (row) of a grid that contains a true cell, the two shifts, the test of step 5 and the
  voxels it emits.
\<close>

text \<open>Whether the cell \<open>(r, c)\<close> exists in the grid and is true.\<close>

definition cell_true :: "bool list list \<Rightarrow> nat \<Rightarrow> nat \<Rightarrow> bool" where
  "cell_true grid r c = (r < length grid \<and> c < length (grid ! r) \<and> grid ! r ! c)"

definition min_column_spec :: "nat \<Rightarrow> bool list list \<Rightarrow> int" where
  "min_column_spec G grid =
     (case find (\<lambda>c. list_ex (\<lambda>r. cell_true grid r c) [0..<length grid]) [0..<G] of
        None \<Rightarrow> - 1
      | Some c \<Rightarrow> int c)"

definition min_row_spec :: "nat \<Rightarrow> bool list list \<Rightarrow> int" where
  "min_row_spec G grid =
     (case find (\<lambda>r. list_ex (\<lambda>c. cell_true grid r c) [0..<G]) [0..<length grid] of
        None \<Rightarrow> - 1
      | Some r \<Rightarrow> int r)"

definition shiftX_spec :: "nat \<Rightarrow> grid_state \<Rightarrow> int" where
  "shiftX_spec G grids =
     (let minX_top = min_column_spec G (top_grid grids);
          minX_front = min_column_spec G (front_grid grids)
      in if minX_top \<noteq> - 1 \<and> minX_front \<noteq> - 1 then minX_front - minX_top else 0)"

definition shiftZ_spec :: "nat \<Rightarrow> grid_state \<Rightarrow> int" where
  "shiftZ_spec G grids =
     (let minZ_top = min_row_spec G (top_grid grids);
          minZ_side = min_column_spec G (side_grid grids)
      in if minZ_top \<noteq> - 1 \<and> minZ_side \<noteq> - 1 then minZ_side - minZ_top else 0)"

definition emitted_spec :: "nat \<Rightarrow> nat \<Rightarrow> grid_state \<Rightarrow> nat \<Rightarrow> nat \<Rightarrow> nat \<Rightarrow> bool" where
  "emitted_spec G H grids x y z =
     (let fx = int x + shiftX_spec G grids; sz = int z + shiftZ_spec G grids in
      cell_true (top_grid grids) z x \<and>
      (0 \<le> fx \<and> fx < int G \<and> cell_true (front_grid grids) (H - 1 - y) (nat fx)) \<and>
      (0 \<le> sz \<and> sz < int G \<and> cell_true (side_grid grids) (H - 1 - y) (nat sz)))"

definition emitted_coords_spec :: "nat \<Rightarrow> nat \<Rightarrow> grid_state \<Rightarrow> (int \<times> int \<times> int) list" where
  "emitted_coords_spec G H grids =
     concat (map (\<lambda>x. concat (map (\<lambda>y. concat (map (\<lambda>z.
        if emitted_spec G H grids x y z then [(int x, int y, int z)] else [])
      [0..<G])) [0..<H])) [0..<G])"

text \<open>The same list with each coordinate as the voxel record that the source pushes.\<close>

definition reconstruct_spec :: "nat \<Rightarrow> nat \<Rightarrow> grid_state \<Rightarrow> voxel list" where
  "reconstruct_spec G H grids =
     concat (map (\<lambda>x. concat (map (\<lambda>y. concat (map (\<lambda>z.
        if emitted_spec G H grids x y z then [new_voxel (int x) (int y) (int z)] else [])
      [0..<G])) [0..<H])) [0..<G])"

text \<open>
  The coordinates of the whole volume, in the order of the reconstruction loops, and a
  voxel list that fills it.
\<close>

definition cube_list :: "nat \<Rightarrow> nat \<Rightarrow> (int \<times> int \<times> int) list" where
  "cube_list G H =
     concat (map (\<lambda>x. concat (map (\<lambda>y. map (\<lambda>z. (int x, int y, int z)) [0..<G]) [0..<H])) [0..<G])"

definition cube_coords :: "nat \<Rightarrow> nat \<Rightarrow> (int \<times> int \<times> int) set" where
  "cube_coords G H = set (cube_list G H)"

definition full_cube :: "nat \<Rightarrow> nat \<Rightarrow> voxel list" where
  "full_cube G H = map (\<lambda>(x, y, z). new_voxel x y z) (cube_list G H)"

text \<open>
  The heights \<open>y + 1\<close> of the voxels of a column, and the number of voxels that the
  guarded increment counts into the cell \<open>(r, c)\<close> of a front or side grid (\<open>col\<close> is the
  coordinate used as the column).
\<close>

definition column_heights :: "voxel list \<Rightarrow> nat \<Rightarrow> nat \<Rightarrow> int list" where
  "column_heights voxels z x =
     map (\<lambda>v. vy v + 1) (filter (\<lambda>v. vz v = int z \<and> vx v = int x) voxels)"

definition counted :: "nat \<Rightarrow> nat \<Rightarrow> (voxel \<Rightarrow> int) \<Rightarrow> voxel list \<Rightarrow> nat \<Rightarrow> nat \<Rightarrow> nat" where
  "counted G H col voxels r c =
     length (filter (\<lambda>v. 0 \<le> vy v \<and> vy v < int H \<and> int H - 1 - vy v = int r \<and> col v = int c) voxels)"

text \<open>
  A voxel inside the grid; the conditions under which handleAddVoxel returns without
  adding; the voxel it adds.
\<close>

definition in_grid :: "nat \<Rightarrow> nat \<Rightarrow> voxel \<Rightarrow> bool" where
  "in_grid G H v =
     (0 \<le> vx v \<and> vx v < int G \<and> 0 \<le> vy v \<and> vy v < int H \<and> 0 \<le> vz v \<and> vz v < int G)"



text \<open>The member of a value that is not null: what the decoder copies into a field.\<close>

definition field :: "'n json \<Rightarrow> string \<Rightarrow> 'n json option" where
  "field v k = (case v of JObj kvs \<Rightarrow> map_of (rev kvs) k | _ \<Rightarrow> None)"

text \<open>
  The values that have a string conversion: every value except an object with a member
  named \<open>toString\<close> and an array that holds such a value.
\<close>

fun plain :: "'n json \<Rightarrow> bool" where
  "plain (JObj kvs) = (''toString'' \<notin> fst ` set kvs)"
| "plain (JArr xs) = list_all plain xs"
| "plain v = True"

definition plain_field :: "'n json \<Rightarrow> string \<Rightarrow> bool" where
  "plain_field v k = (case field v k of None \<Rightarrow> True | Some j \<Rightarrow> plain j)"

text \<open>The array elements that the callback of the decoder turns into a voxel.\<close>

definition record_ok :: "'n json \<Rightarrow> bool" where
  "record_ok v = (v \<noteq> JNull \<and> plain_field v ''x'' \<and> plain_field v ''y'' \<and> plain_field v ''z'')"

text \<open>The string of a value that has one.\<close>

definition rendered :: "('n \<Rightarrow> string) \<Rightarrow> 'n json option \<Rightarrow> string" where
  "rendered num_str v = (case template_string num_str v of Inl e \<Rightarrow> [] | Inr s \<Rightarrow> s)"

definition copied_record :: "('n \<Rightarrow> string) \<Rightarrow> 'n json \<Rightarrow> 'n decoded_voxel" where
  "copied_record num_str v =
     \<lparr>dx = field v ''x'', dy = field v ''y'', dz = field v ''z'',
      did = rendered num_str (field v ''x'') @ '','' @ rendered num_str (field v ''y'') @ '','' @
            rendered num_str (field v ''z''),
      dcolor = field v ''c''\<rparr>"

text \<open>The id of a decoded voxel is the strings of its \<open>x\<close>, \<open>y\<close>, \<open>z\<close> joined by commas.\<close>

definition id_joined :: "('n \<Rightarrow> string) \<Rightarrow> 'n decoded_voxel \<Rightarrow> bool" where
  "id_joined num_str v =
     (case template_string num_str (dx v) of Inl e \<Rightarrow> False | Inr sx \<Rightarrow>
     (case template_string num_str (dy v) of Inl e \<Rightarrow> False | Inr sy \<Rightarrow>
     (case template_string num_str (dz v) of Inl e \<Rightarrow> False | Inr sz \<Rightarrow>
        did v = sx @ '','' @ sy @ '','' @ sz)))"

section \<open>Grids: reads and writes inside a rectangular grid\<close>

lemma rect_new_grid: "rect R C (new_grid R C v)"
  by (simp add: rect_def new_grid_def list_all_iff)

lemma rect_row: "rect R C g \<Longrightarrow> r < R \<Longrightarrow> length (g ! r) = C"
  by (simp add: rect_def list_all_length)

lemma new_grid_nth: "r < R \<Longrightarrow> c < C \<Longrightarrow> new_grid R C v ! r ! c = v"
  by (simp add: new_grid_def)

lemma set_cell_ok:
  assumes "rect R C g" "0 \<le> r" "r < int R" "0 \<le> c" "c < int C"
  shows "set_cell g r c v = Inr (g[nat r := (g ! nat r)[nat c := v]])"
  using assms by (simp add: set_cell_def row_at_def rect_def list_all_length)

lemma rect_update:
  assumes "rect R C g"
  shows "rect R C (g[r := (g ! r)[c := v]])"
  using assms by (cases "r < length g") (auto simp: rect_def list_all_length nth_list_update)

lemma nth_update2:
  assumes "rect R C g" "r < R" "c < C" "r' < R" "c' < C"
  shows "g[r := (g ! r)[c := v]] ! r' ! c' = (if r' = r \<and> c' = c then v else g ! r' ! c')"
  using assms by (auto simp: rect_def list_all_length nth_list_update)

lemma set_cell_row_fail:
  "\<not> (0 \<le> r \<and> r < int (length g)) \<Longrightarrow> set_cell g r c v = Inl TypeError"
  by (simp add: set_cell_def row_at_def)

section \<open>Projection: the cells of the three grids\<close>

lemma rect_mark: "rect R C g \<Longrightarrow> rect R C (mark g r c)"
  by (simp add: mark_def rect_update)

lemma mark_nth:
  assumes "rect R C g" "0 \<le> r" "r < int R" "0 \<le> c" "c < int C" "r' < R" "c' < C"
  shows "mark g r c ! r' ! c' = (g ! r' ! c' \<or> (r = int r' \<and> c = int c'))"
proof -
  have "mark g r c ! r' ! c' = (if r' = nat r \<and> c' = nat c then True else g ! r' ! c')"
    unfolding mark_def using assms by (intro nth_update2[of R C]) auto
  also have "\<dots> = (g ! r' ! c' \<or> (r = int r' \<and> c = int c'))"
    using assms by auto
  finally show ?thesis .
qed

lemma set_cell_mark:
  assumes "rect R C g" "0 \<le> r" "r < int R" "0 \<le> c" "c < int C"
  shows "set_cell g r c True = Inr (mark g r c)"
  using set_cell_ok[OF assms] by (simp add: mark_def)

lemma guarded_write:
  "(b \<Longrightarrow> w = Inr y) \<Longrightarrow> (if b then w else Inr z) = Inr (if b then y else z)"
  by simp

lemma project_voxel_ok:
  assumes "H \<le> G" "grids_ok G g"
  shows "project_voxel G H g v = Inr
     \<lparr>top_grid = (if 0 \<le> vx v \<and> vx v < int G \<and> 0 \<le> vz v \<and> vz v < int G
                  then mark (top_grid g) (vz v) (vx v) else top_grid g),
      front_grid = (if 0 \<le> vx v \<and> vx v < int G \<and> 0 \<le> vy v \<and> vy v < int H
                  then mark (front_grid g) (int H - 1 - vy v) (vx v) else front_grid g),
      side_grid = (if 0 \<le> vz v \<and> vz v < int G \<and> 0 \<le> vy v \<and> vy v < int H
                  then mark (side_grid g) (int H - 1 - vy v) (vz v) else side_grid g)\<rparr>"
proof -
  have t: "rect G G (top_grid g)" and f: "rect G G (front_grid g)" and s: "rect G G (side_grid g)"
    using assms(2) by (simp_all add: grids_ok_def)
  have T: "(if 0 \<le> vx v \<and> vx v < int G \<and> 0 \<le> vz v \<and> vz v < int G
            then set_cell (top_grid g) (vz v) (vx v) True else Inr (top_grid g))
         = Inr (if 0 \<le> vx v \<and> vx v < int G \<and> 0 \<le> vz v \<and> vz v < int G
                  then mark (top_grid g) (vz v) (vx v) else top_grid g)"
    by (rule guarded_write) (simp add: set_cell_mark[OF t])
  have F: "(if 0 \<le> vx v \<and> vx v < int G \<and> 0 \<le> vy v \<and> vy v < int H
            then set_cell (front_grid g) (int H - 1 - vy v) (vx v) True else Inr (front_grid g))
         = Inr (if 0 \<le> vx v \<and> vx v < int G \<and> 0 \<le> vy v \<and> vy v < int H
                  then mark (front_grid g) (int H - 1 - vy v) (vx v) else front_grid g)"
  proof (rule guarded_write)
    assume a: "0 \<le> vx v \<and> vx v < int G \<and> 0 \<le> vy v \<and> vy v < int H"
    then have "0 \<le> int H - 1 - vy v" "int H - 1 - vy v < int G" using assms(1) by linarith+
    then show "set_cell (front_grid g) (int H - 1 - vy v) (vx v) True
        = Inr (mark (front_grid g) (int H - 1 - vy v) (vx v))"
      using a by (intro set_cell_mark[OF f]) simp_all
  qed
  have S: "(if 0 \<le> vz v \<and> vz v < int G \<and> 0 \<le> vy v \<and> vy v < int H
            then set_cell (side_grid g) (int H - 1 - vy v) (vz v) True else Inr (side_grid g))
         = Inr (if 0 \<le> vz v \<and> vz v < int G \<and> 0 \<le> vy v \<and> vy v < int H
                  then mark (side_grid g) (int H - 1 - vy v) (vz v) else side_grid g)"
  proof (rule guarded_write)
    assume a: "0 \<le> vz v \<and> vz v < int G \<and> 0 \<le> vy v \<and> vy v < int H"
    then have "0 \<le> int H - 1 - vy v" "int H - 1 - vy v < int G" using assms(1) by linarith+
    then show "set_cell (side_grid g) (int H - 1 - vy v) (vz v) True
        = Inr (mark (side_grid g) (int H - 1 - vy v) (vz v))"
      using a by (intro set_cell_mark[OF s]) simp_all
  qed
  show ?thesis
    unfolding project_voxel_def T F S by simp
qed

lemma project_voxel_cells:
  assumes "H \<le> G" "grids_ok G g"
  shows "\<exists>g'. project_voxel G H g v = Inr g' \<and> grids_ok G g' \<and>
     (\<forall>r<G. \<forall>c<G. top_grid g' ! r ! c = (top_grid g ! r ! c \<or> top_hit v r c)) \<and>
     (\<forall>r<G. \<forall>c<G. front_grid g' ! r ! c = (front_grid g ! r ! c \<or> front_hit H v r c)) \<and>
     (\<forall>r<G. \<forall>c<G. side_grid g' ! r ! c = (side_grid g ! r ! c \<or> side_hit H v r c))"
proof -
  have t: "rect G G (top_grid g)" and f: "rect G G (front_grid g)" and s: "rect G G (side_grid g)"
    using assms(2) by (simp_all add: grids_ok_def)
  define t' where "t' = (if 0 \<le> vx v \<and> vx v < int G \<and> 0 \<le> vz v \<and> vz v < int G
                  then mark (top_grid g) (vz v) (vx v) else top_grid g)"
  define f' where "f' = (if 0 \<le> vx v \<and> vx v < int G \<and> 0 \<le> vy v \<and> vy v < int H
                  then mark (front_grid g) (int H - 1 - vy v) (vx v) else front_grid g)"
  define s' where "s' = (if 0 \<le> vz v \<and> vz v < int G \<and> 0 \<le> vy v \<and> vy v < int H
                  then mark (side_grid g) (int H - 1 - vy v) (vz v) else side_grid g)"
  have eq: "project_voxel G H g v = Inr \<lparr>top_grid = t', front_grid = f', side_grid = s'\<rparr>"
    unfolding t'_def f'_def s'_def by (rule project_voxel_ok[OF assms])
  have rt: "rect G G t'" "rect G G f'" "rect G G s'"
    unfolding t'_def f'_def s'_def using t f s by (simp_all add: rect_mark)
  have ct: "t' ! r ! c = (top_grid g ! r ! c \<or> top_hit v r c)" if "r < G" "c < G" for r c
  proof (cases "0 \<le> vx v \<and> vx v < int G \<and> 0 \<le> vz v \<and> vz v < int G")
    case True
    then show ?thesis using that mark_nth[OF t, of "vz v" "vx v" r c]
      by (simp add: t'_def top_hit_def)
  next
    case False
    then show ?thesis using that by (auto simp: t'_def top_hit_def)
  qed
  have cf: "f' ! r ! c = (front_grid g ! r ! c \<or> front_hit H v r c)" if "r < G" "c < G" for r c
  proof (cases "0 \<le> vx v \<and> vx v < int G \<and> 0 \<le> vy v \<and> vy v < int H")
    case True
    then have "0 \<le> int H - 1 - vy v" "int H - 1 - vy v < int G" using assms(1) by linarith+
    then show ?thesis using True that mark_nth[OF f, of "int H - 1 - vy v" "vx v" r c]
      by (simp add: f'_def front_hit_def)
  next
    case False
    then show ?thesis using that by (auto simp: f'_def front_hit_def)
  qed
  have cs: "s' ! r ! c = (side_grid g ! r ! c \<or> side_hit H v r c)" if "r < G" "c < G" for r c
  proof (cases "0 \<le> vz v \<and> vz v < int G \<and> 0 \<le> vy v \<and> vy v < int H")
    case True
    then have "0 \<le> int H - 1 - vy v" "int H - 1 - vy v < int G" using assms(1) by linarith+
    then show ?thesis using True that mark_nth[OF s, of "int H - 1 - vy v" "vz v" r c]
      by (simp add: s'_def side_hit_def)
  next
    case False
    then show ?thesis using that by (auto simp: s'_def side_hit_def)
  qed
  show ?thesis
    unfolding eq using rt ct cf cs by (simp add: grids_ok_def)
qed

lemma project_forEach:
  assumes "H \<le> G" "grids_ok G g"
  shows "\<exists>g'. forEach (project_voxel G H) vs g = Inr g' \<and> grids_ok G g' \<and>
     (\<forall>r<G. \<forall>c<G. top_grid g' ! r ! c = (top_grid g ! r ! c \<or> (\<exists>v\<in>set vs. top_hit v r c))) \<and>
     (\<forall>r<G. \<forall>c<G. front_grid g' ! r ! c = (front_grid g ! r ! c \<or> (\<exists>v\<in>set vs. front_hit H v r c))) \<and>
     (\<forall>r<G. \<forall>c<G. side_grid g' ! r ! c = (side_grid g ! r ! c \<or> (\<exists>v\<in>set vs. side_hit H v r c)))"
  using assms(2)
proof (induction vs arbitrary: g)
  case Nil
  then show ?case by simp
next
  case (Cons v vs)
  from project_voxel_cells[OF assms(1) Cons.prems, of v] obtain g1 where
    g1: "project_voxel G H g v = Inr g1" "grids_ok G g1"
     "\<forall>r<G. \<forall>c<G. top_grid g1 ! r ! c = (top_grid g ! r ! c \<or> top_hit v r c)"
     "\<forall>r<G. \<forall>c<G. front_grid g1 ! r ! c = (front_grid g ! r ! c \<or> front_hit H v r c)"
     "\<forall>r<G. \<forall>c<G. side_grid g1 ! r ! c = (side_grid g ! r ! c \<or> side_hit H v r c)"
    by blast
  from Cons.IH[OF g1(2)] obtain g2 where
    g2: "forEach (project_voxel G H) vs g1 = Inr g2" "grids_ok G g2"
     "\<forall>r<G. \<forall>c<G. top_grid g2 ! r ! c = (top_grid g1 ! r ! c \<or> (\<exists>v\<in>set vs. top_hit v r c))"
     "\<forall>r<G. \<forall>c<G. front_grid g2 ! r ! c = (front_grid g1 ! r ! c \<or> (\<exists>v\<in>set vs. front_hit H v r c))"
     "\<forall>r<G. \<forall>c<G. side_grid g2 ! r ! c = (side_grid g1 ! r ! c \<or> (\<exists>v\<in>set vs. side_hit H v r c))"
    by blast
  show ?case
    apply (rule exI[of _ g2])
    apply (simp add: g1(1) g2(1) g2(2))
    apply (intro conjI)
    using g1(3) g2(3) apply auto[1]
    using g1(4) g2(4) apply auto[1]
    using g1(5) g2(5) apply auto[1]
    done
qed

lemma grids_ok_new: "grids_ok G \<lparr>top_grid = new_grid G G False, front_grid = new_grid G G False,
    side_grid = new_grid G G False\<rparr>"
  by (simp add: grids_ok_def rect_new_grid)

lemma project3DTo2D_cells:
  assumes "H \<le> G"
  shows "\<exists>g. project3DTo2D G H vs = Inr g \<and> grids_ok G g \<and>
     (\<forall>r<G. \<forall>c<G. top_grid g ! r ! c = (\<exists>v\<in>set vs. top_hit v r c)) \<and>
     (\<forall>r<G. \<forall>c<G. front_grid g ! r ! c = (\<exists>v\<in>set vs. front_hit H v r c)) \<and>
     (\<forall>r<G. \<forall>c<G. side_grid g ! r ! c = (\<exists>v\<in>set vs. side_hit H v r c))"
  using project_forEach[OF assms grids_ok_new, of vs]
  unfolding project3DTo2D_def by (simp add: new_grid_nth)

lemma front_hit_row:
  assumes "y < H"
  shows "front_hit H v (H - 1 - y) x \<longleftrightarrow> vx v = int x \<and> vy v = int y"
  using assms by (auto simp: front_hit_def)

lemma side_hit_row:
  assumes "y < H"
  shows "side_hit H v (H - 1 - y) z \<longleftrightarrow> vz v = int z \<and> vy v = int y"
  using assms by (auto simp: side_hit_def)

lemma front_hit_below: "front_hit H v r x \<Longrightarrow> r < H"
  by (auto simp: front_hit_def)

lemma side_hit_below: "side_hit H v r x \<Longrightarrow> r < H"
  by (auto simp: side_hit_def)

text \<open>
  What project3DTo2D does when \<open>MAX_HEIGHT \<le> GRID_SIZE\<close>: it returns, for every voxel
  list and without an error, three grids of \<open>GRID_SIZE\<close> rows and \<open>GRID_SIZE\<close> columns.
  \<open>top[z][x]\<close> is true exactly when some voxel has these \<open>x\<close> and \<open>z\<close>,
  \<open>front[MAX_HEIGHT-1-y][x]\<close> exactly when some voxel has these \<open>x\<close> and \<open>y\<close>,
  \<open>side[MAX_HEIGHT-1-y][z]\<close> exactly when some voxel has these \<open>z\<close> and \<open>y\<close>; the rows
  of \<open>front\<close> and \<open>side\<close> from \<open>MAX_HEIGHT\<close> on stay false. A voxel outside the range of a
  grid leaves that grid alone, and the empty list gives grids that are false everywhere.
\<close>

lemma project3DTo2D_grids:
  assumes "H \<le> G"
  shows "\<exists>g. project3DTo2D G H voxels = Inr g \<and>
     rect G G (top_grid g) \<and> rect G G (front_grid g) \<and> rect G G (side_grid g) \<and>
     (\<forall>z<G. \<forall>x<G. top_grid g ! z ! x \<longleftrightarrow> (\<exists>v\<in>set voxels. vx v = int x \<and> vz v = int z)) \<and>
     (\<forall>y<H. \<forall>x<G. front_grid g ! (H - 1 - y) ! x \<longleftrightarrow>
        (\<exists>v\<in>set voxels. vx v = int x \<and> vy v = int y)) \<and>
     (\<forall>y<H. \<forall>z<G. side_grid g ! (H - 1 - y) ! z \<longleftrightarrow>
        (\<exists>v\<in>set voxels. vz v = int z \<and> vy v = int y)) \<and>
     (\<forall>r<G. \<forall>c<G. H \<le> r \<longrightarrow> \<not> front_grid g ! r ! c \<and> \<not> side_grid g ! r ! c) \<and>
     (voxels = [] \<longrightarrow>
        (\<forall>r<G. \<forall>c<G. \<not> top_grid g ! r ! c \<and> \<not> front_grid g ! r ! c \<and> \<not> side_grid g ! r ! c))"
proof -
  from project3DTo2D_cells[OF assms, of voxels] obtain g where
    g: "project3DTo2D G H voxels = Inr g" "grids_ok G g"
       "\<forall>r<G. \<forall>c<G. top_grid g ! r ! c = (\<exists>v\<in>set voxels. top_hit v r c)"
       "\<forall>r<G. \<forall>c<G. front_grid g ! r ! c = (\<exists>v\<in>set voxels. front_hit H v r c)"
       "\<forall>r<G. \<forall>c<G. side_grid g ! r ! c = (\<exists>v\<in>set voxels. side_hit H v r c)"
    by blast
  have row: "H - 1 - y < G" if "y < H" for y using that assms by simp
  have t: "\<forall>z<G. \<forall>x<G. top_grid g ! z ! x \<longleftrightarrow> (\<exists>v\<in>set voxels. vx v = int x \<and> vz v = int z)"
    using g(3) by (auto simp: top_hit_def)
  have f: "\<forall>y<H. \<forall>x<G. front_grid g ! (H - 1 - y) ! x \<longleftrightarrow>
        (\<exists>v\<in>set voxels. vx v = int x \<and> vy v = int y)"
  proof (intro allI impI)
    fix y x assume yx: "y < H" "x < G"
    have "front_grid g ! (H - 1 - y) ! x = (\<exists>v\<in>set voxels. front_hit H v (H - 1 - y) x)"
      using g(4) row[OF yx(1)] yx(2) by blast
    then show "front_grid g ! (H - 1 - y) ! x \<longleftrightarrow>
        (\<exists>v\<in>set voxels. vx v = int x \<and> vy v = int y)"
      unfolding front_hit_row[OF yx(1)] .
  qed
  have s: "\<forall>y<H. \<forall>z<G. side_grid g ! (H - 1 - y) ! z \<longleftrightarrow>
        (\<exists>v\<in>set voxels. vz v = int z \<and> vy v = int y)"
  proof (intro allI impI)
    fix y z assume yz: "y < H" "z < G"
    have "side_grid g ! (H - 1 - y) ! z = (\<exists>v\<in>set voxels. side_hit H v (H - 1 - y) z)"
      using g(5) row[OF yz(1)] yz(2) by blast
    then show "side_grid g ! (H - 1 - y) ! z \<longleftrightarrow>
        (\<exists>v\<in>set voxels. vz v = int z \<and> vy v = int y)"
      unfolding side_hit_row[OF yz(1)] .
  qed
  have b: "\<forall>r<G. \<forall>c<G. H \<le> r \<longrightarrow> \<not> front_grid g ! r ! c \<and> \<not> side_grid g ! r ! c"
    using g(4) g(5) front_hit_below side_hit_below by (metis not_le)
  have e: "voxels = [] \<longrightarrow>
        (\<forall>r<G. \<forall>c<G. \<not> top_grid g ! r ! c \<and> \<not> front_grid g ! r ! c \<and> \<not> side_grid g ! r ! c)"
    using g(3) g(4) g(5) by simp
  show ?thesis
    using g(1) g(2) t f s b e unfolding grids_ok_def by blast
qed

lemma project3DTo2D_grids_example:
  "MAX_HEIGHT \<le> GRID_SIZE \<and>
   (\<exists>g. project3DTo2D GRID_SIZE MAX_HEIGHT [new_voxel 1 4 3, new_voxel 7 0 0] = Inr g \<and>
      rect GRID_SIZE GRID_SIZE (front_grid g) \<and>
      top_grid g ! 3 ! 1 \<and> front_grid g ! 0 ! 1 \<and> side_grid g ! 0 ! 3 \<and>
      \<not> top_grid g ! 0 ! 0 \<and> side_grid g ! 4 ! 0 \<and> \<not> front_grid g ! 4 ! 0)"
proof -
  have h: "MAX_HEIGHT \<le> GRID_SIZE" by (simp add: MAX_HEIGHT_def GRID_SIZE_def)
  from project3DTo2D_grids[OF h, of "[new_voxel 1 4 3, new_voxel 7 0 0]"] obtain g where
    g: "project3DTo2D GRID_SIZE MAX_HEIGHT [new_voxel 1 4 3, new_voxel 7 0 0] = Inr g"
       "rect GRID_SIZE GRID_SIZE (front_grid g)"
       "\<forall>z<GRID_SIZE. \<forall>x<GRID_SIZE. top_grid g ! z ! x \<longleftrightarrow>
          (\<exists>v\<in>set [new_voxel 1 4 3, new_voxel 7 0 0]. vx v = int x \<and> vz v = int z)"
       "\<forall>y<MAX_HEIGHT. \<forall>x<GRID_SIZE. front_grid g ! (MAX_HEIGHT - 1 - y) ! x \<longleftrightarrow>
          (\<exists>v\<in>set [new_voxel 1 4 3, new_voxel 7 0 0]. vx v = int x \<and> vy v = int y)"
       "\<forall>y<MAX_HEIGHT. \<forall>z<GRID_SIZE. side_grid g ! (MAX_HEIGHT - 1 - y) ! z \<longleftrightarrow>
          (\<exists>v\<in>set [new_voxel 1 4 3, new_voxel 7 0 0]. vz v = int z \<and> vy v = int y)"
    by blast
  have 1: "top_grid g ! 3 ! 1" "\<not> top_grid g ! 0 ! 0"
    using g(3) by (simp_all add: GRID_SIZE_def new_voxel_def)
  have 2: "front_grid g ! 0 ! 1" "\<not> front_grid g ! 4 ! 0"
    using g(4)[rule_format, of 4 1] g(4)[rule_format, of 0 0]
    by (simp_all add: GRID_SIZE_def MAX_HEIGHT_def new_voxel_def)
  have 3: "side_grid g ! 0 ! 3" "side_grid g ! 4 ! 0"
    using g(5)[rule_format, of 4 3] g(5)[rule_format, of 0 0]
    by (simp_all add: GRID_SIZE_def MAX_HEIGHT_def new_voxel_def)
  show ?thesis using h g(1) g(2) 1 2 3 by blast
qed

text \<open>
  With the shipped constants the two are equal, so front and side have \<open>MAX_HEIGHT\<close> rows.
\<close>

lemma project3DTo2D_shipped:
  "\<exists>g. project3DTo2D GRID_SIZE MAX_HEIGHT voxels = Inr g \<and>
     rect GRID_SIZE GRID_SIZE (top_grid g) \<and> rect MAX_HEIGHT GRID_SIZE (front_grid g) \<and>
     rect MAX_HEIGHT GRID_SIZE (side_grid g)"
proof -
  have h: "MAX_HEIGHT \<le> GRID_SIZE" by (simp add: MAX_HEIGHT_def GRID_SIZE_def)
  have e: "MAX_HEIGHT = GRID_SIZE" by (simp add: MAX_HEIGHT_def GRID_SIZE_def)
  from project3DTo2D_grids[OF h, of voxels] show ?thesis unfolding e by blast
qed


section \<open>Coordinate keys are injective\<close>

lemma digit_char_inj: "d < 10 \<Longrightarrow> e < 10 \<Longrightarrow> digit_char d = digit_char e \<Longrightarrow> d = e"
proof -
  assume "d < 10" "e < 10" "digit_char d = digit_char e"
  moreover have "d \<in> {0,1,2,3,4,5,6,7,8,9}" using \<open>d < 10\<close> by auto
  moreover have "e \<in> {0,1,2,3,4,5,6,7,8,9}" using \<open>e < 10\<close> by auto
  ultimately show ?thesis
    by (auto simp: digit_char_def)
qed

lemma digit_char_plain: "d < 10 \<Longrightarrow> digit_char d \<noteq> CHR '','' \<and> digit_char d \<noteq> CHR ''-''"
proof -
  assume "d < 10"
  then have "d \<in> {0,1,2,3,4,5,6,7,8,9}" by auto
  then show ?thesis by (auto simp: digit_char_def)
qed

lemma show_nat_nonempty: "show_nat n \<noteq> []"
  by (subst show_nat.simps) simp

lemma show_nat_snoc: "\<exists>s. show_nat n = s @ [digit_char (n mod 10)] \<and> (s = [] \<longleftrightarrow> n < 10) \<and> (\<not> n < 10 \<longrightarrow> s = show_nat (n div 10))"
  by (subst show_nat.simps) (auto simp: show_nat_nonempty)

lemma show_nat_inj: "show_nat n = show_nat m \<Longrightarrow> n = m"
proof (induction n arbitrary: m rule: show_nat.induct)
  case (1 n)
  obtain s where s: "show_nat n = s @ [digit_char (n mod 10)]" "s = [] \<longleftrightarrow> n < 10"
      "\<not> n < 10 \<longrightarrow> s = show_nat (n div 10)"
    using show_nat_snoc[of n] by blast
  obtain t where t: "show_nat m = t @ [digit_char (m mod 10)]" "t = [] \<longleftrightarrow> m < 10"
      "\<not> m < 10 \<longrightarrow> t = show_nat (m div 10)"
    using show_nat_snoc[of m] by blast
  from 1(2) s(1) t(1) have st: "s = t" and d: "digit_char (n mod 10) = digit_char (m mod 10)"
    by simp_all
  have md: "n mod 10 = m mod 10"
    using digit_char_inj[OF _ _ d] by simp
  show ?case
  proof (cases "n < 10")
    case True
    then have "m < 10" using s(2) t(2) st by simp
    then show ?thesis using True md by simp
  next
    case False
    then have m: "\<not> m < 10" using s(2) t(2) st by simp
    have "show_nat (n div 10) = show_nat (m div 10)" using s(3) t(3) st False m by simp
    then have "n div 10 = m div 10" using "1.IH"[OF False] by simp
    then show ?thesis using md by (metis div_mult_mod_eq)
  qed
qed

lemma show_nat_chars: "c \<in> set (show_nat n) \<Longrightarrow> c \<noteq> CHR '','' \<and> c \<noteq> CHR ''-''"
proof (induction n rule: show_nat.induct)
  case (1 n)
  show ?case
  proof (cases "n < 10")
    case True
    then show ?thesis using 1(2) digit_char_plain[of n] by (subst (asm) show_nat.simps) simp
  next
    case False
    then have "c \<in> set (show_nat (n div 10)) \<or> c = digit_char (n mod 10)"
      using 1(2) by (subst (asm) show_nat.simps) auto
    then show ?thesis using "1.IH"[OF False] digit_char_plain[of "n mod 10"] by auto
  qed
qed

lemma show_int_inj: "show_int i = show_int j \<Longrightarrow> i = j"
proof -
  assume a: "show_int i = show_int j"
  have hd: "hd (show_nat n) \<noteq> CHR ''-''" for n
    using show_nat_chars[of "hd (show_nat n)" n] show_nat_nonempty[of n] by simp
  show ?thesis
  proof (cases "i < 0")
    case True
    show ?thesis
    proof (cases "j < 0")
      case True
      with \<open>i < 0\<close> a have "show_nat (nat (- i)) = show_nat (nat (- j))" by (simp add: show_int_def)
      then have "nat (- i) = nat (- j)" by (rule show_nat_inj)
      then show ?thesis using True \<open>i < 0\<close> by simp
    next
      case False
      with \<open>i < 0\<close> a have "CHR ''-'' # show_nat (nat (- i)) = show_nat (nat j)" by (simp add: show_int_def)
      then have "hd (show_nat (nat j)) = CHR ''-''" by (metis list.sel(1))
      then show ?thesis using hd by simp
    qed
  next
    case False
    show ?thesis
    proof (cases "j < 0")
      case True
      with False a have "show_nat (nat i) = CHR ''-'' # show_nat (nat (- j))" by (simp add: show_int_def)
      then have "hd (show_nat (nat i)) = CHR ''-''" by (metis list.sel(1))
      then show ?thesis using hd by simp
    next
      case False
      with \<open>\<not> i < 0\<close> a have "show_nat (nat i) = show_nat (nat j)" by (simp add: show_int_def)
      then have "nat i = nat j" by (rule show_nat_inj)
      then show ?thesis using False \<open>\<not> i < 0\<close> by simp
    qed
  qed
qed

lemma show_int_no_comma: "CHR '','' \<notin> set (show_int i)"
  using show_nat_chars by (auto simp: show_int_def)

lemma split_at_comma:
  assumes "a @ CHR '','' # b = a' @ CHR '','' # b'" "CHR '','' \<notin> set a" "CHR '','' \<notin> set a'"
  shows "a = a' \<and> b = b'"
  using assms
proof (induction a arbitrary: a')
  case Nil
  then show ?case by (cases a') auto
next
  case (Cons x a)
  then show ?case by (cases a') auto
qed

lemma coord_key_inj:
  "coord_key x y z = coord_key x' y' z' \<longleftrightarrow> x = x' \<and> y = y' \<and> z = z'"
proof
  assume a: "coord_key x y z = coord_key x' y' z'"
  then have "show_int x @ CHR '','' # (show_int y @ CHR '','' # show_int z)
           = show_int x' @ CHR '','' # (show_int y' @ CHR '','' # show_int z')"
    by (simp add: coord_key_def)
  from split_at_comma[OF this show_int_no_comma show_int_no_comma]
  have x: "show_int x = show_int x'"
    and r: "show_int y @ CHR '','' # show_int z = show_int y' @ CHR '','' # show_int z'"
    by simp_all
  from split_at_comma[OF r show_int_no_comma show_int_no_comma]
  have "show_int y = show_int y'" "show_int z = show_int z'" by simp_all
  with x show "x = x' \<and> y = y' \<and> z = z'" by (simp add: show_int_inj)
qed simp

section \<open>Surface area\<close>

lemma key_in_set: "coord_key x y z \<in> getVoxelSet vs \<longleftrightarrow> (x, y, z) \<in> coords ` set vs"
  by (auto simp: getVoxelSet_def coords_def coord_key_inj image_iff)

lemma count_exposed_eq:
  "count_exposed S a ns = a + length (filter (\<lambda>(x, y, z). coord_key x y z \<notin> S) ns)"
  unfolding count_exposed_def
  by (induction ns arbitrary: a) (auto split: prod.splits)

lemma neighbors_directions: "neighbors v = map (shift_coord (coords v)) directions"
  by (simp add: neighbors_def directions_def coords_def)

lemma distinct_directions: "distinct directions"
  by (simp add: directions_def)

lemma exposed_of_voxel:
  "length (filter (\<lambda>(x, y, z). coord_key x y z \<notin> getVoxelSet vs) (neighbors v))
     = card (open_dirs (coords ` set vs) (coords v))"
proof -
  have "filter (\<lambda>(x, y, z). coord_key x y z \<notin> getVoxelSet vs) (neighbors v)
      = map (shift_coord (coords v))
          (filter (\<lambda>d. shift_coord (coords v) d \<notin> coords ` set vs) directions)"
    unfolding neighbors_directions filter_map
    by (rule arg_cong[where f="map _"], rule filter_cong) (auto simp: key_in_set split: prod.splits)
  then have "length (filter (\<lambda>(x, y, z). coord_key x y z \<notin> getVoxelSet vs) (neighbors v))
      = length (filter (\<lambda>d. shift_coord (coords v) d \<notin> coords ` set vs) directions)"
    by simp
  also have "\<dots> = card (set (filter (\<lambda>d. shift_coord (coords v) d \<notin> coords ` set vs) directions))"
    by (rule distinct_card[symmetric]) (simp add: distinct_directions)
  also have "\<dots> = card (open_dirs (coords ` set vs) (coords v))"
    by (simp add: open_dirs_def)
  finally show ?thesis .
qed

lemma surface_fold:
  "foldl (\<lambda>a v. count_exposed S a (neighbors v)) a0 ws
     = a0 + sum_list (map (\<lambda>v. length (filter (\<lambda>(x, y, z). coord_key x y z \<notin> S) (neighbors v))) ws)"
  by (induction ws arbitrary: a0) (simp_all add: count_exposed_eq)

lemma surfaceArea_sum:
  "surfaceArea (calculateStats vs)
     = sum_list (map (\<lambda>v. card (open_dirs (coords ` set vs) (coords v))) vs)"
  by (simp add: calculateStats_def Let_def surface_fold exposed_of_voxel)

lemma exposed_faces_Sigma:
  "exposed_faces vs = (SIGMA c : coords ` set vs. open_dirs (coords ` set vs) c)"
  by (auto simp: exposed_faces_def open_dirs_def)

lemma surfaceArea_card:
  assumes "distinct (map coords vs)"
  shows "surfaceArea (calculateStats vs) = card (exposed_faces vs)"
proof -
  let ?C = "coords ` set vs"
  have "surfaceArea (calculateStats vs) = sum_list (map (\<lambda>c. card (open_dirs ?C c)) (map coords vs))"
    by (simp add: surfaceArea_sum comp_def)
  also have "\<dots> = (\<Sum>c\<in>set (map coords vs). card (open_dirs ?C c))"
    using assms by (rule sum_list_distinct_conv_sum_set)
  also have "\<dots> = card (SIGMA c : ?C. open_dirs ?C c)"
    by (simp add: open_dirs_def)
  finally show ?thesis by (simp add: exposed_faces_Sigma)
qed

lemma surfaceArea_empty: "surfaceArea (calculateStats []) = 0"
  by (simp add: surfaceArea_sum)

lemma open_dirs_single: "card (open_dirs {c} c) = 6"
proof -
  obtain x y z where c: "c = (x, y, z)" by (cases c) auto
  have "open_dirs {c} c = set directions"
    by (auto simp: open_dirs_def c directions_def)
  then show ?thesis using distinct_card[OF distinct_directions] by (simp add: directions_def)
qed

lemma surfaceArea_single: "surfaceArea (calculateStats [v]) = 6"
  by (simp add: surfaceArea_sum open_dirs_single)

lemma shift_coord_inj: "shift_coord c d' = shift_coord c d \<longleftrightarrow> d' = d"
  by (cases c; cases d; cases d') auto

lemma shift_coord_moves: "d \<in> set directions \<Longrightarrow> shift_coord c d \<noteq> c"
  by (cases c) (auto simp: directions_def)

lemma shift_coord_back: "shift_coord (shift_coord c d) d' = c \<longleftrightarrow> d' = opposite d"
  by (cases c; cases d; cases d') (auto simp: opposite_def)

lemma opposite_direction:
  assumes "d \<in> set directions"
  shows "opposite d \<in> set directions"
proof -
  have "d = (1, 0, 0) \<or> d = (- 1, 0, 0) \<or> d = (0, 1, 0) \<or> d = (0, - 1, 0) \<or>
        d = (0, 0, 1) \<or> d = (0, 0, - 1)"
    using assms by (simp add: directions_def)
  then show ?thesis
    by (elim disjE) (simp_all add: directions_def opposite_def)
qed

lemma card_directions: "card (set directions) = 6"
  using distinct_card[OF distinct_directions] by (simp add: directions_def)

lemma open_dirs_pair:
  assumes "d \<in> set directions" "w = shift_coord c d"
  shows "card (open_dirs {c, w} c) = 5" "card (open_dirs {c, w} w) = 5"
proof -
  have 1: "open_dirs {c, w} c = set directions - {d}"
    unfolding open_dirs_def assms(2)
    using shift_coord_moves[of _ c] by (auto simp: shift_coord_inj)
  have 2: "open_dirs {c, w} w = set directions - {opposite d}"
    unfolding open_dirs_def assms(2)
    using shift_coord_moves[of _ "shift_coord c d"] by (auto simp: shift_coord_back)
  show "card (open_dirs {c, w} c) = 5" unfolding 1 using assms(1) card_directions by simp
  show "card (open_dirs {c, w} w) = 5"
    unfolding 2 using opposite_direction[OF assms(1)] card_directions by simp
qed

lemma surfaceArea_adjacent:
  assumes "d \<in> set directions" "coords w = shift_coord (coords v) d"
  shows "surfaceArea (calculateStats [v, w]) = 10"
  using open_dirs_pair[OF assms] by (simp add: surfaceArea_sum)

text \<open>
  C3. For a voxel list without two voxels at the same coordinates, the surface area that
  calculateStats returns is the number of pairs of an occupied coordinate and one of the
  six axis directions whose neighbouring coordinate is not occupied; there is no ground
  plane, so a face below \<open>y = 0\<close> counts like any other. One voxel has surface area 6, two
  voxels that share a face have 10, and the empty list has 0.
\<close>

theorem calculateStats_surfaceArea:
  "(distinct (map coords voxels) \<longrightarrow>
      surfaceArea (calculateStats voxels) = card (exposed_faces voxels)) \<and>
   surfaceArea (calculateStats [v]) = 6 \<and>
   (d \<in> set directions \<and> coords w = shift_coord (coords v) d \<longrightarrow>
      surfaceArea (calculateStats [v, w]) = 10) \<and>
   surfaceArea (calculateStats []) = 0"
  using surfaceArea_card[of voxels] surfaceArea_single[of v] surfaceArea_adjacent[of d w v]
    surfaceArea_empty
  by blast

theorem calculateStats_surfaceArea_witness:
  "distinct (map coords [new_voxel 0 0 0, new_voxel 1 0 0, new_voxel 0 1 0]) \<and>
   card (exposed_faces [new_voxel 0 0 0, new_voxel 1 0 0, new_voxel 0 1 0]) = 14 \<and>
   (0, - 1, 0) \<in> set directions \<and>
   coords (new_voxel 3 0 2) = shift_coord (coords (new_voxel 3 1 2)) (0, - 1, 0) \<and>
   surfaceArea (calculateStats [new_voxel 3 1 2, new_voxel 3 0 2]) = 10"
proof -
  have d: "distinct (map coords [new_voxel 0 0 0, new_voxel 1 0 0, new_voxel 0 1 0])"
    by (simp add: coords_def new_voxel_def)
  have a: "(0, - 1, 0) \<in> set directions \<and>
      coords (new_voxel 3 0 2) = shift_coord (coords (new_voxel 3 1 2)) (0, - 1, 0)"
    by (simp add: directions_def coords_def new_voxel_def)
  have e: "surfaceArea (calculateStats [new_voxel 0 0 0, new_voxel 1 0 0, new_voxel 0 1 0]) = 14"
    by code_simp
  show ?thesis
    using calculateStats_surfaceArea
      [of "[new_voxel 0 0 0, new_voxel 1 0 0, new_voxel 0 1 0]" "new_voxel 3 1 2"
          "(0, - 1, 0)" "new_voxel 3 0 2"]
      d a e
    by simp
qed

section \<open>Reconstruction against the reference algorithm\<close>

lemma get_cell_truthy:
  assumes "r < length grid"
  shows "get_cell grid (int r) (int c) = Inr (elem_at (grid ! r) (int c))"
    and "truthy (elem_at (grid ! r) (int c)) = cell_true grid r c"
  using assms by (simp_all add: get_cell_def row_at_def elem_at_def truthy_def cell_true_def)

lemma column_active_eq:
  assumes "\<forall>r\<in>set rs. r < length grid"
  shows "column_active grid c rs = Inr (list_ex (\<lambda>r. cell_true grid r c) rs)"
  using assms by (induction rs) (simp_all add: get_cell_truthy)

lemma first_active_column_eq:
  assumes "\<forall>r\<in>set rs. r < length grid"
  shows "first_active_column grid rs cs =
     Inr (case find (\<lambda>c. list_ex (\<lambda>r. cell_true grid r c) rs) cs of None \<Rightarrow> - 1 | Some c \<Rightarrow> int c)"
  by (induction cs) (simp_all add: column_active_eq[OF assms])

lemma getFirstActiveColumn_spec:
  assumes "length grid = G"
  shows "getFirstActiveColumn G grid = Inr (min_column_spec G grid)"
  unfolding getFirstActiveColumn_def min_column_spec_def
  using assms by (subst first_active_column_eq) simp_all

lemma row_active_eq:
  assumes "r < length grid"
  shows "row_active grid r cs = Inr (list_ex (\<lambda>c. cell_true grid r c) cs)"
  by (induction cs) (simp_all add: get_cell_truthy[OF assms])

lemma first_active_row_eq:
  assumes "\<forall>r\<in>set rs. r < length grid"
  shows "first_active_row grid cs rs =
     Inr (case find (\<lambda>r. list_ex (\<lambda>c. cell_true grid r c) cs) rs of None \<Rightarrow> - 1 | Some r \<Rightarrow> int r)"
  using assms by (induction rs) (simp_all add: row_active_eq)

lemma first_active_row_spec:
  assumes "length grid = G"
  shows "first_active_row grid [0..<G] [0..<G] = Inr (min_row_spec G grid)"
  unfolding min_row_spec_def
  using assms by (subst first_active_row_eq) simp_all

lemma get_cell_int:
  assumes "r < length grid" "0 \<le> c"
  shows "get_cell grid (int r) c = Inr (elem_at (grid ! r) c)"
    and "truthy (elem_at (grid ! r) c) = cell_true grid r (nat c)"
  using assms by (auto simp: get_cell_def row_at_def elem_at_def truthy_def cell_true_def nat_less_iff)

lemma forEach_append:
  assumes "\<forall>x\<in>set xs. \<forall>s. f s x = Inr (s @ h x)"
  shows "forEach f xs s = Inr (s @ concat (map h xs))"
  using assms by (induction xs arbitrary: s) simp_all

lemma voxel_test_spec:
  assumes len: "length (top_grid grids) = G" "length (front_grid grids) = G"
      "length (side_grid grids) = G"
    and hg: "H \<le> G" and xyz: "x < G" "y < H" "z < G"
  shows "voxel_test G H grids (shiftX_spec G grids) (shiftZ_spec G grids) x y z
       = Inr (emitted_spec G H grids x y z)"
proof -
  let ?fx = "int x + shiftX_spec G grids" and ?sz = "int z + shiftZ_spec G grids"
  have row: "int H - 1 - int y = int (H - 1 - y)" using xyz(2) by simp
  have rlen: "H - 1 - y < length (front_grid grids)" "H - 1 - y < length (side_grid grids)"
    using xyz(2) hg len by simp_all
  have t: "get_cell (top_grid grids) (int z) (int x) = Inr (elem_at (top_grid grids ! z) (int x))"
    "truthy (elem_at (top_grid grids ! z) (int x)) = cell_true (top_grid grids) z x"
    using get_cell_int[of z "top_grid grids" "int x"] xyz(3) len(1) by simp_all
  have f: "(if 0 \<le> ?fx \<and> ?fx < int G
            then get_cell (front_grid grids) (int H - 1 - int y) ?fx else Inr (Some False))
      = Inr (if 0 \<le> ?fx \<and> ?fx < int G
             then elem_at (front_grid grids ! (H - 1 - y)) ?fx else Some False)"
    unfolding row by (rule guarded_write) (rule get_cell_int(1)[OF rlen(1)], simp)
  have f': "truthy (if 0 \<le> ?fx \<and> ?fx < int G
             then elem_at (front_grid grids ! (H - 1 - y)) ?fx else Some False)
      = (0 \<le> ?fx \<and> ?fx < int G \<and> cell_true (front_grid grids) (H - 1 - y) (nat ?fx))"
  proof (cases "0 \<le> ?fx \<and> ?fx < int G")
    case True
    then show ?thesis using get_cell_int(2)[OF rlen(1), of ?fx] by simp
  next
    case False
    then show ?thesis by (auto simp: truthy_def)
  qed
  have s: "(if 0 \<le> ?sz \<and> ?sz < int G
            then get_cell (side_grid grids) (int H - 1 - int y) ?sz else Inr (Some False))
      = Inr (if 0 \<le> ?sz \<and> ?sz < int G
             then elem_at (side_grid grids ! (H - 1 - y)) ?sz else Some False)"
    unfolding row by (rule guarded_write) (rule get_cell_int(1)[OF rlen(2)], simp)
  have s': "truthy (if 0 \<le> ?sz \<and> ?sz < int G
             then elem_at (side_grid grids ! (H - 1 - y)) ?sz else Some False)
      = (0 \<le> ?sz \<and> ?sz < int G \<and> cell_true (side_grid grids) (H - 1 - y) (nat ?sz))"
  proof (cases "0 \<le> ?sz \<and> ?sz < int G")
    case True
    then show ?thesis using get_cell_int(2)[OF rlen(2), of ?sz] by simp
  next
    case False
    then show ?thesis by (auto simp: truthy_def)
  qed
  show ?thesis
    unfolding voxel_test_def Let_def t(1) f s emitted_spec_def
    by (simp only: sum.case t(2) f' s')
qed

lemma loops_spec:
  assumes len: "length (top_grid grids) = G" "length (front_grid grids) = G"
      "length (side_grid grids) = G"
    and hg: "H \<le> G"
  shows "forEach (loop_x G H grids (shiftX_spec G grids) (shiftZ_spec G grids)) [0..<G] []
       = Inr (reconstruct_spec G H grids)"
proof -
  let ?sx = "shiftX_spec G grids" and ?sz = "shiftZ_spec G grids"
  let ?hz = "\<lambda>x y z. if emitted_spec G H grids x y z
                     then [new_voxel (int x) (int y) (int z)] else []"
  let ?hy = "\<lambda>x y. concat (map (?hz x y) [0..<G])"
  let ?hx = "\<lambda>x. concat (map (?hy x) [0..<H])"
  have z: "loop_z G H grids ?sx ?sz x y acc z = Inr (acc @ ?hz x y z)"
    if "x < G" "y < H" "z < G" for x y z acc
    unfolding loop_z_def voxel_test_spec[OF len hg that] by simp
  have y: "loop_y G H grids ?sx ?sz x acc y = Inr (acc @ ?hy x y)"
    if "x < G" "y < H" for x y acc
    unfolding loop_y_def using that by (intro forEach_append) (simp add: z)
  have x: "loop_x G H grids ?sx ?sz acc x = Inr (acc @ ?hx x)"
    if "x < G" for x acc
    unfolding loop_x_def using that by (intro forEach_append) (simp add: y)
  have "forEach (loop_x G H grids ?sx ?sz) [0..<G] [] = Inr ([] @ concat (map ?hx [0..<G]))"
    by (intro forEach_append) (simp add: x)
  then show ?thesis by (simp add: reconstruct_spec_def)
qed

lemma intersect2DTo3D_spec:
  assumes len: "length (top_grid grids) = G" "length (front_grid grids) = G"
      "length (side_grid grids) = G"
    and hg: "H \<le> G"
  shows "intersect2DTo3D G H grids = Inr (reconstruct_spec G H grids)"
proof -
  have sx: "(if min_column_spec G (top_grid grids) \<noteq> - 1 \<and> min_column_spec G (front_grid grids) \<noteq> - 1
        then min_column_spec G (front_grid grids) - min_column_spec G (top_grid grids) else 0)
      = shiftX_spec G grids"
    by (simp add: shiftX_spec_def Let_def)
  have sz: "(if min_row_spec G (top_grid grids) \<noteq> - 1 \<and> min_column_spec G (side_grid grids) \<noteq> - 1
        then min_column_spec G (side_grid grids) - min_row_spec G (top_grid grids) else 0)
      = shiftZ_spec G grids"
    by (simp add: shiftZ_spec_def Let_def)
  show ?thesis
    unfolding intersect2DTo3D_def getFirstActiveColumn_spec[OF len(1)]
      getFirstActiveColumn_spec[OF len(2)] getFirstActiveColumn_spec[OF len(3)]
      first_active_row_spec[OF len(1)] Let_def sum.case sx sz
    by (rule loops_spec[OF len hg])
qed

lemma reconstruct_spec_set:
  "set (reconstruct_spec G H grids) =
     {new_voxel (int x) (int y) (int z) | x y z.
        x < G \<and> y < H \<and> z < G \<and> emitted_spec G H grids x y z}"
  unfolding reconstruct_spec_def 
  apply (auto split: if_splits)
   apply blast
  apply force
  done

lemma find_upt_least:
  "find P [0..<n] = Some k \<longleftrightarrow> k < n \<and> P k \<and> (\<forall>j<k. \<not> P j)"
  by (auto simp: find_Some_iff)

lemma first_index_none:
  "(case find P [0..<n] of None \<Rightarrow> - 1 | Some c \<Rightarrow> int c) = - 1 \<longleftrightarrow> (\<forall>c<n. \<not> P c)"
proof (cases "find P [0..<n]")
  case None
  then have "\<forall>c<n. \<not> P c" by (simp add: find_None_iff)
  then show ?thesis unfolding None by simp
next
  case (Some k)
  then have "k < n \<and> P k" by (simp add: find_upt_least)
  then show ?thesis using Some by auto
qed

lemma first_index_least:
  "(case find P [0..<n] of None \<Rightarrow> - 1 | Some c \<Rightarrow> int c) = int c \<longleftrightarrow>
     c < n \<and> P c \<and> (\<forall>j<c. \<not> P j)"
proof (cases "find P [0..<n]")
  case None
  then have "\<forall>c<n. \<not> P c" by (simp add: find_None_iff)
  then show ?thesis unfolding None by auto
next
  case (Some k)
  then have k: "k < n" "P k" "\<forall>j<k. \<not> P j" by (simp_all add: find_upt_least)
  have "k = c" if "c < n" "P c" "\<forall>j<c. \<not> P j"
    using that k by (meson linorder_neqE_nat)
  then show ?thesis using Some k by auto
qed

lemma min_column_spec_none:
  "min_column_spec G grid = - 1 \<longleftrightarrow> (\<forall>c<G. \<forall>r<length grid. \<not> cell_true grid r c)"
  unfolding min_column_spec_def first_index_none by (auto simp: list_ex_iff)

lemma min_column_spec_least:
  "min_column_spec G grid = int c \<longleftrightarrow>
     c < G \<and> (\<exists>r<length grid. cell_true grid r c) \<and>
     (\<forall>c'<c. \<forall>r<length grid. \<not> cell_true grid r c')"
  unfolding min_column_spec_def first_index_least by (auto simp: list_ex_iff)

lemma min_row_spec_none:
  "min_row_spec G grid = - 1 \<longleftrightarrow> (\<forall>r<length grid. \<forall>c<G. \<not> cell_true grid r c)"
  unfolding min_row_spec_def first_index_none by (auto simp: list_ex_iff)

lemma min_row_spec_least:
  "min_row_spec G grid = int r \<longleftrightarrow>
     r < length grid \<and> (\<exists>c<G. cell_true grid r c) \<and>
     (\<forall>r'<r. \<forall>c<G. \<not> cell_true grid r' c)"
  unfolding min_row_spec_def first_index_least by (auto simp: list_ex_iff)

lemma distinct_concat_key:
  assumes "distinct xs" "\<forall>x\<in>set xs. distinct (f x)" "\<forall>x\<in>set xs. \<forall>c\<in>set (f x). k c = x"
  shows "distinct (concat (map f xs))"
  using assms by (induction xs) auto

lemma reconstruct_spec_distinct: "distinct (map coords (reconstruct_spec G H grids))"
proof -
  define hz where "hz = (\<lambda>x y z. if emitted_spec G H grids x y z
                     then [coords (new_voxel (int x) (int y) (int z))] else [])"
  define hy where "hy = (\<lambda>x y. concat (map (hz x y) [0..<G]))"
  define hx where "hx = (\<lambda>x. concat (map (hy x) [0..<H]))"
  have eq: "map coords (reconstruct_spec G H grids) = concat (map hx [0..<G])"
    unfolding reconstruct_spec_def map_concat map_map comp_def if_distrib[of "map coords"]
      list.map hx_def hy_def hz_def
    by (rule refl)
  have sz: "c = (int x, int y, int z)" if "c \<in> set (hz x y z)" for c x y z
    using that by (simp add: hz_def coords_def new_voxel_def split: if_splits)
  have sy: "fst c = int x \<and> fst (snd c) = int y" if "c \<in> set (hy x y)" for c x y
  proof -
    from that obtain z where "c \<in> set (hz x y z)" unfolding hy_def by auto
    from sz[OF this] show ?thesis by simp
  qed
  have sx: "fst c = int x" if "c \<in> set (hx x)" for c x
  proof -
    from that obtain y where "c \<in> set (hy x y)" unfolding hx_def by auto
    from sy[OF this] show ?thesis by simp
  qed
  have dz: "distinct (hz x y z)" for x y z by (simp add: hz_def)
  have dy: "distinct (hy x y)" for x y
    unfolding hy_def
  proof (rule distinct_concat_key[where k = "\<lambda>c. nat (snd (snd c))"])
    show "\<forall>z\<in>set [0..<G]. \<forall>c\<in>set (hz x y z). nat (snd (snd c)) = z"
      using sz by fastforce
  qed (simp_all add: dz)
  have dx: "distinct (hx x)" for x
    unfolding hx_def
  proof (rule distinct_concat_key[where k = "\<lambda>c. nat (fst (snd c))"])
    show "\<forall>y\<in>set [0..<H]. \<forall>c\<in>set (hy x y). nat (fst (snd c)) = y"
      using sy by fastforce
  qed (simp_all add: dy)
  have "distinct (concat (map hx [0..<G]))"
  proof (rule distinct_concat_key[where k = "\<lambda>c. nat (fst c)"])
    show "\<forall>x\<in>set [0..<G]. \<forall>c\<in>set (hx x). nat (fst c) = x"
      using sx by fastforce
  qed (simp_all add: dx)
  then show ?thesis by (simp only: eq)
qed

lemma coords_new_voxel: "coords (new_voxel x y z) = (x, y, z)"
  by (simp add: coords_def new_voxel_def)

lemma reconstruct_spec_coords:
  "(c \<in> coords ` set (reconstruct_spec G H grids)) =
     (\<exists>x y z. c = (int x, int y, int z) \<and> x < G \<and> y < H \<and> z < G \<and>
        emitted_spec G H grids x y z)"
proof
  assume "c \<in> coords ` set (reconstruct_spec G H grids)"
  then obtain v where v: "v \<in> set (reconstruct_spec G H grids)" "c = coords v" by blast
  from v(1) obtain x y z where
    "v = new_voxel (int x) (int y) (int z)" "x < G" "y < H" "z < G" "emitted_spec G H grids x y z"
    unfolding reconstruct_spec_set by blast
  then show "\<exists>x y z. c = (int x, int y, int z) \<and> x < G \<and> y < H \<and> z < G \<and>
        emitted_spec G H grids x y z"
    using v(2) coords_new_voxel by blast
next
  assume "\<exists>x y z. c = (int x, int y, int z) \<and> x < G \<and> y < H \<and> z < G \<and>
        emitted_spec G H grids x y z"
  then obtain x y z where c: "c = (int x, int y, int z)" "x < G" "y < H" "z < G"
    "emitted_spec G H grids x y z" by blast
  then have "new_voxel (int x) (int y) (int z) \<in> set (reconstruct_spec G H grids)"
    unfolding reconstruct_spec_set by blast
  then have "coords (new_voxel (int x) (int y) (int z)) \<in> coords ` set (reconstruct_spec G H grids)"
    by (rule imageI)
  then show "c \<in> coords ` set (reconstruct_spec G H grids)"
    unfolding coords_new_voxel c(1) .
qed

lemma reconstruct_spec_coords_list:
  "map coords (reconstruct_spec G H grids) = emitted_coords_spec G H grids"
  unfolding reconstruct_spec_def emitted_coords_spec_def map_concat map_map comp_def
    if_distrib[of "map coords"] list.map coords_new_voxel
  by (rule refl)

lemma reconstruct_spec_ids:
  assumes "v \<in> set (reconstruct_spec G H grids)"
  shows "vid v = coord_key (vx v) (vy v) (vz v) \<and> vcolor v = None"
proof -
  from assms obtain x y z where "v = new_voxel (int x) (int y) (int z)"
    unfolding reconstruct_spec_set by blast
  then show ?thesis by (simp add: new_voxel_def)
qed

text \<open>
  C1. On a grid triple whose three grids have \<open>GRID_SIZE\<close> rows (with
  \<open>MAX_HEIGHT \<le> GRID_SIZE\<close>), intersect2DTo3D returns voxels whose coordinates are, in
  order, those that the reference algorithm emits: \<open>minX_top\<close>, \<open>minX_front\<close> and
  \<open>minZ_side\<close> are the smallest column of the grid with a true cell and \<open>minZ_top\<close> the
  smallest such row (\<open>-1\<close> for an empty grid), each shift is the difference of the two
  minima when both exist and \<open>0\<close> otherwise, and a voxel is emitted at \<open>(x, y, z)\<close> exactly
  when \<open>top[z][x]\<close>, \<open>front[MAX_HEIGHT-1-y][x+shiftX]\<close> and
  \<open>side[MAX_HEIGHT-1-y][z+shiftZ]\<close> are true, a shifted column outside
  \<open>[0, GRID_SIZE)\<close> counting as false. No coordinate is emitted twice, and each voxel
  has the id of its coordinates and no colour.
\<close>

theorem intersect2DTo3D_reference:
  assumes "length (top_grid grids) = G" "length (front_grid grids) = G"
      "length (side_grid grids) = G" "H \<le> G"
  shows "\<exists>vs. intersect2DTo3D G H grids = Inr vs \<and>
     map coords vs = emitted_coords_spec G H grids \<and>
     (\<forall>x y z. (x, y, z) \<in> coords ` set vs \<longleftrightarrow>
        (\<exists>i j k. x = int i \<and> y = int j \<and> z = int k \<and> i < G \<and> j < H \<and> k < G \<and>
           emitted_spec G H grids i j k)) \<and>
     distinct (map coords vs) \<and>
     (\<forall>v\<in>set vs. vid v = coord_key (vx v) (vy v) (vz v) \<and> vcolor v = None)"
proof -
  let ?vs = "reconstruct_spec G H grids"
  have 1: "intersect2DTo3D G H grids = Inr ?vs" by (rule intersect2DTo3D_spec[OF assms])
  have 2: "map coords ?vs = emitted_coords_spec G H grids" by (rule reconstruct_spec_coords_list)
  have 3: "\<forall>x y z. (x, y, z) \<in> coords ` set ?vs \<longleftrightarrow>
        (\<exists>i j k. x = int i \<and> y = int j \<and> z = int k \<and> i < G \<and> j < H \<and> k < G \<and>
           emitted_spec G H grids i j k)"
    unfolding reconstruct_spec_coords by auto
  have 4: "distinct (map coords ?vs)" by (rule reconstruct_spec_distinct)
  have 5: "\<forall>v\<in>set ?vs. vid v = coord_key (vx v) (vy v) (vz v) \<and> vcolor v = None"
    using reconstruct_spec_ids by blast
  show ?thesis using 1 2 3 4 5 by blast
qed

lemma example_reconstruct:
  "reconstruct_spec 5 5
      \<lparr>top_grid = mark (new_grid 5 5 False) 2 1,
       front_grid = mark (new_grid 5 5 False) 4 3,
       side_grid = mark (new_grid 5 5 False) 4 4\<rparr> = [new_voxel 1 0 2]"
  by code_simp

lemma example_coords:
  "emitted_coords_spec 5 5
      \<lparr>top_grid = mark (new_grid 5 5 False) 2 1,
       front_grid = mark (new_grid 5 5 False) 4 3,
       side_grid = mark (new_grid 5 5 False) 4 4\<rparr> = [(1, 0, 2)]"
  by code_simp

theorem intersect2DTo3D_reference_witness:
  "length (mark (new_grid 5 5 False) 2 1) = GRID_SIZE \<and>
   length (mark (new_grid 5 5 False) 4 3) = GRID_SIZE \<and>
   length (mark (new_grid 5 5 False) 4 4) = GRID_SIZE \<and>
   MAX_HEIGHT \<le> GRID_SIZE \<and>
   (\<exists>vs. intersect2DTo3D GRID_SIZE MAX_HEIGHT
      \<lparr>top_grid = mark (new_grid 5 5 False) 2 1,
       front_grid = mark (new_grid 5 5 False) 4 3,
       side_grid = mark (new_grid 5 5 False) 4 4\<rparr> = Inr vs \<and>
      map coords vs = [(1, 0, 2)] \<and> map vid vs = [''1,0,2''])"
proof -
  let ?g = "\<lparr>top_grid = mark (new_grid 5 5 False) 2 1,
       front_grid = mark (new_grid 5 5 False) 4 3,
       side_grid = mark (new_grid 5 5 False) 4 4\<rparr>"
  have l: "length (mark (new_grid 5 5 False) 2 1) = GRID_SIZE"
      "length (mark (new_grid 5 5 False) 4 3) = GRID_SIZE"
      "length (mark (new_grid 5 5 False) 4 4) = GRID_SIZE"
    by (simp_all add: mark_def new_grid_def GRID_SIZE_def)
  have h: "MAX_HEIGHT \<le> GRID_SIZE" by (simp add: MAX_HEIGHT_def GRID_SIZE_def)
  have k: "coord_key 1 0 2 = ''1,0,2''" by code_simp
  from intersect2DTo3D_reference[of ?g GRID_SIZE MAX_HEIGHT] l h obtain vs where
    vs: "intersect2DTo3D GRID_SIZE MAX_HEIGHT ?g = Inr vs"
        "map coords vs = emitted_coords_spec GRID_SIZE MAX_HEIGHT ?g"
        "\<forall>v\<in>set vs. vid v = coord_key (vx v) (vy v) (vz v) \<and> vcolor v = None"
    by auto
  have c: "map coords vs = [(1, 0, 2)]"
    using vs(2) example_coords by (simp add: GRID_SIZE_def MAX_HEIGHT_def)
  then obtain v where v: "vs = [v]" "coords v = (1, 0, 2)" by auto
  then have "vid v = ''1,0,2''" using vs(3) k by (simp add: coords_def)
  then have i: "map vid vs = [''1,0,2'']" using v(1) by simp
  show ?thesis
    by (intro conjI exI[of _ vs]) (rule l h vs(1) c i)+
qed

lemma emitted_top: "emitted_spec G H grids x y z \<Longrightarrow> cell_true (top_grid grids) z x"
  by (simp add: emitted_spec_def Let_def)

lemma reconstruct_spec_top:
  assumes "v \<in> set (reconstruct_spec G H grids)"
  shows "\<exists>x z. x < G \<and> z < G \<and> vx v = int x \<and> vz v = int z \<and> cell_true (top_grid grids) z x"
proof -
  from assms obtain x y z where
    "v = new_voxel (int x) (int y) (int z)" "x < G" "z < G" "emitted_spec G H grids x y z"
    unfolding reconstruct_spec_set by blast
  then show ?thesis using emitted_top by (auto simp: new_voxel_def)
qed

lemma example_project:
  "project3DTo2D 5 5 [new_voxel 1 0 2] =
     Inr \<lparr>top_grid = mark (new_grid 5 5 False) 2 1,
          front_grid = mark (new_grid 5 5 False) 4 1,
          side_grid = mark (new_grid 5 5 False) 4 2\<rparr>"
  by code_simp

lemma example_intersect:
  "intersect2DTo3D 5 5
      \<lparr>top_grid = mark (new_grid 5 5 False) 2 1,
       front_grid = mark (new_grid 5 5 False) 4 3,
       side_grid = mark (new_grid 5 5 False) 4 4\<rparr> = Inr [new_voxel 1 0 2]"
  by code_simp

text \<open>
  C8. Every voxel that intersect2DTo3D emits lies on a true cell of the given top grid, so
  the top grid of the projection of the reconstruction is true only where the given top
  grid is. The same does not hold for front and side, which are read at the shifted
  column: in the shipped configuration there are grids whose reconstruction projects to
  a front cell and a side cell that are false in the input.
\<close>

theorem reconstruction_top_contained:
  assumes "length (top_grid grids) = G" "length (front_grid grids) = G"
      "length (side_grid grids) = G" "H \<le> G"
  shows "(\<exists>vs g'. intersect2DTo3D G H grids = Inr vs \<and>
        (\<forall>v\<in>set vs. 0 \<le> vx v \<and> 0 \<le> vz v \<and>
           cell_true (top_grid grids) (nat (vz v)) (nat (vx v))) \<and>
        project3DTo2D G H vs = Inr g' \<and>
        (\<forall>z<G. \<forall>x<G. top_grid g' ! z ! x \<longrightarrow> cell_true (top_grid grids) z x)) \<and>
     (\<exists>grids0 vs g'.
        length (top_grid grids0) = GRID_SIZE \<and> length (front_grid grids0) = GRID_SIZE \<and>
        length (side_grid grids0) = GRID_SIZE \<and>
        intersect2DTo3D GRID_SIZE MAX_HEIGHT grids0 = Inr vs \<and>
        project3DTo2D GRID_SIZE MAX_HEIGHT vs = Inr g' \<and>
        front_grid g' ! 4 ! 1 \<and> \<not> cell_true (front_grid grids0) 4 1 \<and>
        side_grid g' ! 4 ! 2 \<and> \<not> cell_true (side_grid grids0) 4 2)"
proof
  let ?vs = "reconstruct_spec G H grids"
  have i: "intersect2DTo3D G H grids = Inr ?vs" by (rule intersect2DTo3D_spec[OF assms])
  have m: "\<forall>v\<in>set ?vs. 0 \<le> vx v \<and> 0 \<le> vz v \<and>
      cell_true (top_grid grids) (nat (vz v)) (nat (vx v))"
    using reconstruct_spec_top[of _ G H grids] by fastforce
  from project3DTo2D_cells[OF assms(4), of ?vs] obtain g' where
    g': "project3DTo2D G H ?vs = Inr g'"
        "\<forall>r<G. \<forall>c<G. top_grid g' ! r ! c = (\<exists>v\<in>set ?vs. top_hit v r c)"
    by blast
  have c: "\<forall>z<G. \<forall>x<G. top_grid g' ! z ! x \<longrightarrow> cell_true (top_grid grids) z x"
  proof (intro allI impI)
    fix z x assume "z < G" "x < G" "top_grid g' ! z ! x"
    then obtain v where v: "v \<in> set ?vs" "top_hit v z x" using g'(2) by blast
    from reconstruct_spec_top[OF v(1)] v(2) show "cell_true (top_grid grids) z x"
      by (auto simp: top_hit_def)
  qed
  show "\<exists>vs g'. intersect2DTo3D G H grids = Inr vs \<and>
        (\<forall>v\<in>set vs. 0 \<le> vx v \<and> 0 \<le> vz v \<and>
           cell_true (top_grid grids) (nat (vz v)) (nat (vx v))) \<and>
        project3DTo2D G H vs = Inr g' \<and>
        (\<forall>z<G. \<forall>x<G. top_grid g' ! z ! x \<longrightarrow> cell_true (top_grid grids) z x)"
    using i m g'(1) c by blast
next
  let ?g0 = "\<lparr>top_grid = mark (new_grid 5 5 False) 2 1,
       front_grid = mark (new_grid 5 5 False) 4 3,
       side_grid = mark (new_grid 5 5 False) 4 4\<rparr>"
  let ?g' = "\<lparr>top_grid = mark (new_grid 5 5 False) 2 1,
          front_grid = mark (new_grid 5 5 False) 4 1,
          side_grid = mark (new_grid 5 5 False) 4 2\<rparr>"
  have l: "length (top_grid ?g0) = GRID_SIZE" "length (front_grid ?g0) = GRID_SIZE"
      "length (side_grid ?g0) = GRID_SIZE"
    by (simp_all add: mark_def new_grid_def GRID_SIZE_def)
  have i: "intersect2DTo3D GRID_SIZE MAX_HEIGHT ?g0 = Inr [new_voxel 1 0 2]"
    using example_intersect by (simp add: GRID_SIZE_def MAX_HEIGHT_def)
  have p: "project3DTo2D GRID_SIZE MAX_HEIGHT [new_voxel 1 0 2] = Inr ?g'"
    using example_project by (simp add: GRID_SIZE_def MAX_HEIGHT_def)
  have f: "front_grid ?g' ! 4 ! 1" "\<not> cell_true (front_grid ?g0) 4 1"
      "side_grid ?g' ! 4 ! 2" "\<not> cell_true (side_grid ?g0) 4 2"
    by (simp_all add: mark_def new_grid_def cell_true_def)
  show "\<exists>grids0 vs g'.
        length (top_grid grids0) = GRID_SIZE \<and> length (front_grid grids0) = GRID_SIZE \<and>
        length (side_grid grids0) = GRID_SIZE \<and>
        intersect2DTo3D GRID_SIZE MAX_HEIGHT grids0 = Inr vs \<and>
        project3DTo2D GRID_SIZE MAX_HEIGHT vs = Inr g' \<and>
        front_grid g' ! 4 ! 1 \<and> \<not> cell_true (front_grid grids0) 4 1 \<and>
        side_grid g' ! 4 ! 2 \<and> \<not> cell_true (side_grid grids0) 4 2"
    using l i p f by blast
qed

theorem reconstruction_top_contained_witness:
  "length (mark (new_grid 5 5 False) 2 1) = GRID_SIZE \<and>
   length (mark (new_grid 5 5 False) 4 3) = GRID_SIZE \<and>
   length (mark (new_grid 5 5 False) 4 4) = GRID_SIZE \<and>
   MAX_HEIGHT \<le> GRID_SIZE \<and>
   (\<exists>vs g'. intersect2DTo3D GRID_SIZE MAX_HEIGHT
        \<lparr>top_grid = mark (new_grid 5 5 False) 2 1,
         front_grid = mark (new_grid 5 5 False) 4 3,
         side_grid = mark (new_grid 5 5 False) 4 4\<rparr> = Inr vs \<and>
      (\<forall>v\<in>set vs. 0 \<le> vx v \<and> 0 \<le> vz v \<and>
         cell_true (mark (new_grid 5 5 False) 2 1) (nat (vz v)) (nat (vx v))) \<and>
      project3DTo2D GRID_SIZE MAX_HEIGHT vs = Inr g' \<and>
      (\<forall>z<GRID_SIZE. \<forall>x<GRID_SIZE.
         top_grid g' ! z ! x \<longrightarrow> cell_true (mark (new_grid 5 5 False) 2 1) z x))"
proof -
  have l: "length (mark (new_grid 5 5 False) 2 1) = GRID_SIZE"
      "length (mark (new_grid 5 5 False) 4 3) = GRID_SIZE"
      "length (mark (new_grid 5 5 False) 4 4) = GRID_SIZE"
    by (simp_all add: mark_def new_grid_def GRID_SIZE_def)
  have h: "MAX_HEIGHT \<le> GRID_SIZE" by (simp add: MAX_HEIGHT_def GRID_SIZE_def)
  show ?thesis
    using reconstruction_top_contained
      [of "\<lparr>top_grid = mark (new_grid 5 5 False) 2 1,
         front_grid = mark (new_grid 5 5 False) 4 3,
         side_grid = mark (new_grid 5 5 False) 4 4\<rparr>" GRID_SIZE MAX_HEIGHT] l h
    by simp
qed

section \<open>Round trip through projection and reconstruction\<close>

lemma cube_coords_iff:
  "c \<in> cube_coords G H \<longleftrightarrow> (\<exists>x y z. c = (int x, int y, int z) \<and> x < G \<and> y < H \<and> z < G)"
  unfolding cube_coords_def cube_list_def by (auto simp: image_iff)

lemma coords_full_cube: "coords ` set (full_cube G H) = cube_coords G H"
proof -
  have "map coords (full_cube G H) = cube_list G H"
    unfolding full_cube_def map_map
    by (rule map_idI) (auto simp: coords_def new_voxel_def)
  then have "set (map coords (full_cube G H)) = cube_coords G H"
    by (simp only: cube_coords_def)
  then show ?thesis by simp
qed

lemma cell_true_rect: "rect R C g \<Longrightarrow> r < R \<Longrightarrow> c < C \<Longrightarrow> cell_true g r c = g ! r ! c"
  by (simp add: cell_true_def rect_def list_all_length)

lemma rect_length: "rect R C g \<Longrightarrow> length g = R"
  by (simp add: rect_def)

lemma cube_voxel:
  assumes "coords ` set voxels = cube_coords G H" "x < G" "y < H" "z < G"
  shows "\<exists>v\<in>set voxels. vx v = int x \<and> vy v = int y \<and> vz v = int z"
proof -
  have "(int x, int y, int z) \<in> cube_coords G H" using assms(2-4) unfolding cube_coords_iff by blast
  then have "(int x, int y, int z) \<in> coords ` set voxels" using assms(1) by simp
  then show ?thesis by (auto simp: coords_def)
qed

lemma cube_voxel_range:
  assumes "coords ` set voxels = cube_coords G H" "v \<in> set voxels"
  shows "0 \<le> vy v \<and> vy v < int H"
proof -
  have "coords v \<in> cube_coords G H" using assms by blast
  then show ?thesis unfolding cube_coords_iff by (auto simp: coords_def)
qed

lemma emitted_unshifted:
  assumes ok: "grids_ok G g" and hg: "H \<le> G"
    and t00: "top_grid g ! 0 ! 0" and f00: "front_grid g ! 0 ! 0" and s00: "side_grid g ! 0 ! 0"
    and pos: "0 < G"
  shows "shiftX_spec G g = 0" "shiftZ_spec G g = 0"
proof -
  have len: "length (top_grid g) = G" "length (front_grid g) = G" "length (side_grid g) = G"
    using ok by (simp_all add: grids_ok_def rect_def)
  have rt: "rect G G (top_grid g)" "rect G G (front_grid g)" "rect G G (side_grid g)"
    using ok by (simp_all add: grids_ok_def)
  have ct: "cell_true (top_grid g) 0 0" "cell_true (front_grid g) 0 0" "cell_true (side_grid g) 0 0"
    using t00 f00 s00 cell_true_rect[OF rt(1) pos pos] cell_true_rect[OF rt(2) pos pos]
      cell_true_rect[OF rt(3) pos pos] by simp_all
  have "min_column_spec G (top_grid g) = int 0"
    unfolding min_column_spec_least using ct(1) pos len(1) by auto
  moreover have "min_column_spec G (front_grid g) = int 0"
    unfolding min_column_spec_least using ct(2) pos len(2) by auto
  moreover have "min_column_spec G (side_grid g) = int 0"
    unfolding min_column_spec_least using ct(3) pos len(3) by auto
  moreover have "min_row_spec G (top_grid g) = int 0"
    unfolding min_row_spec_least using ct(1) pos len(1) by auto
  ultimately show "shiftX_spec G g = 0" "shiftZ_spec G g = 0"
    by (simp_all add: shiftX_spec_def shiftZ_spec_def)
qed

lemma dense_round_trip:
  assumes hg: "H \<le> G" and cube: "coords ` set voxels = cube_coords G H"
  shows "\<exists>g vs. project3DTo2D G H voxels = Inr g \<and> intersect2DTo3D G H g = Inr vs \<and>
     coords ` set vs = cube_coords G H \<and> distinct (map coords vs)"
proof -
  from project3DTo2D_cells[OF hg, of voxels] obtain g where
    g: "project3DTo2D G H voxels = Inr g" "grids_ok G g"
       "\<forall>r<G. \<forall>c<G. top_grid g ! r ! c = (\<exists>v\<in>set voxels. top_hit v r c)"
       "\<forall>r<G. \<forall>c<G. front_grid g ! r ! c = (\<exists>v\<in>set voxels. front_hit H v r c)"
       "\<forall>r<G. \<forall>c<G. side_grid g ! r ! c = (\<exists>v\<in>set voxels. side_hit H v r c)"
    by blast
  have len: "length (top_grid g) = G" "length (front_grid g) = G" "length (side_grid g) = G"
    using g(2) by (simp_all add: grids_ok_def rect_def)
  have rt: "rect G G (top_grid g)" "rect G G (front_grid g)" "rect G G (side_grid g)"
    using g(2) by (simp_all add: grids_ok_def)
  let ?vs = "reconstruct_spec G H g"
  have i: "intersect2DTo3D G H g = Inr ?vs" by (rule intersect2DTo3D_spec[OF len hg])
  have top: "top_grid g ! r ! c" if "r < G" "c < G" "0 < H" for r c
  proof -
    from cube_voxel[OF cube that(2) that(3) that(1)] obtain v where
      "v \<in> set voxels" "top_hit v r c" by (auto simp: top_hit_def)
    then show ?thesis using g(3) that by blast
  qed
  have front: "front_grid g ! (H - 1 - y) ! c" if "y < H" "c < G" for y c
  proof -
    from cube_voxel[OF cube that(2) that(1) that(2)] obtain v where
      v: "v \<in> set voxels" "vx v = int c" "vy v = int y" by blast
    have "front_hit H v (H - 1 - y) c" using v(2,3) front_hit_row[OF that(1), of v c] by blast
    moreover have "H - 1 - y < G" using that(1) hg by simp
    ultimately show ?thesis using g(4) that(2) v(1) by blast
  qed
  have side: "side_grid g ! (H - 1 - y) ! c" if "y < H" "c < G" for y c
  proof -
    from cube_voxel[OF cube that(2) that(1) that(2)] obtain v where
      v: "v \<in> set voxels" "vz v = int c" "vy v = int y" by blast
    have "side_hit H v (H - 1 - y) c" using v(2,3) side_hit_row[OF that(1), of v c] by blast
    moreover have "H - 1 - y < G" using that(1) hg by simp
    ultimately show ?thesis using g(5) that(2) v(1) by blast
  qed
  have em: "emitted_spec G H g x y z" if "x < G" "y < H" "z < G" for x y z
  proof -
    have pos: "0 < G" "0 < H" using that by simp_all
    have "H - 1 - (H - 1) = 0" by simp
    then have f0: "front_grid g ! 0 ! 0" "side_grid g ! 0 ! 0"
      using front[of "H - 1" 0] side[of "H - 1" 0] pos by simp_all
    have sh: "shiftX_spec G g = 0" "shiftZ_spec G g = 0"
      using emitted_unshifted[OF g(2) hg top[OF pos(1) pos(1) pos(2)] f0 pos(1)] by simp_all
    have r: "H - 1 - y < G" using that(2) hg by simp
    have "cell_true (top_grid g) z x"
      using top[OF that(3) that(1) pos(2)] cell_true_rect[OF rt(1) that(3) that(1)] by simp
    moreover have "cell_true (front_grid g) (H - 1 - y) x"
      using front[OF that(2) that(1)] cell_true_rect[OF rt(2) r that(1)] by simp
    moreover have "cell_true (side_grid g) (H - 1 - y) z"
      using side[OF that(2) that(3)] cell_true_rect[OF rt(3) r that(3)] by simp
    ultimately show ?thesis
      unfolding emitted_spec_def Let_def sh using that by simp
  qed
  have "coords ` set ?vs = cube_coords G H"
  proof (rule set_eqI)
    fix c
    show "c \<in> coords ` set ?vs \<longleftrightarrow> c \<in> cube_coords G H"
      unfolding reconstruct_spec_coords cube_coords_iff using em by blast
  qed
  then show ?thesis using g(1) i reconstruct_spec_distinct[of G H g] by blast
qed

lemma distinct_singleton:
  assumes "distinct xs" "set xs = {a}"
  shows "xs = [a]"
proof (cases xs)
  case Nil
  then show ?thesis using assms(2) by simp
next
  case (Cons x ys)
  have "x = a" using assms(2) Cons by auto
  have "set ys \<subseteq> {a}" using assms(2) Cons by auto
  moreover have "a \<notin> set ys" using assms(1) Cons \<open>x = a\<close> by simp
  ultimately have "ys = []" by (cases ys) auto
  then show ?thesis using Cons \<open>x = a\<close> by simp
qed

lemma single_round_trip:
  assumes hg: "H \<le> G" and g2: "2 < G" and h0: "0 < H" and v: "coords v = (2, 0, 2)"
  shows "\<exists>g. project3DTo2D G H [v] = Inr g \<and>
     rect G G (top_grid g) \<and> rect G G (front_grid g) \<and> rect G G (side_grid g) \<and>
     (\<forall>r<G. \<forall>c<G. top_grid g ! r ! c \<longleftrightarrow> r = 2 \<and> c = 2) \<and>
     (\<forall>r<G. \<forall>c<G. front_grid g ! r ! c \<longleftrightarrow> r = H - 1 \<and> c = 2) \<and>
     (\<forall>r<G. \<forall>c<G. side_grid g ! r ! c \<longleftrightarrow> r = H - 1 \<and> c = 2) \<and>
     intersect2DTo3D G H g = Inr [new_voxel 2 0 2]"
proof -
  have vc: "vx v = 2" "vy v = 0" "vz v = 2" using v by (simp_all add: coords_def)
  from project3DTo2D_cells[OF hg, of "[v]"] obtain g where
    g: "project3DTo2D G H [v] = Inr g" "grids_ok G g"
       "\<forall>r<G. \<forall>c<G. top_grid g ! r ! c = (\<exists>v\<in>set [v]. top_hit v r c)"
       "\<forall>r<G. \<forall>c<G. front_grid g ! r ! c = (\<exists>v\<in>set [v]. front_hit H v r c)"
       "\<forall>r<G. \<forall>c<G. side_grid g ! r ! c = (\<exists>v\<in>set [v]. side_hit H v r c)"
    by blast
  have len: "length (top_grid g) = G" "length (front_grid g) = G" "length (side_grid g) = G"
    using g(2) by (simp_all add: grids_ok_def rect_def)
  have rt: "rect G G (top_grid g)" "rect G G (front_grid g)" "rect G G (side_grid g)"
    using g(2) by (simp_all add: grids_ok_def)
  have th: "top_hit v r c \<longleftrightarrow> r = 2 \<and> c = 2" for r c
    using vc by (auto simp: top_hit_def)
  have fh: "front_hit H v r c \<longleftrightarrow> r = H - 1 \<and> c = 2" for r c
    using vc h0 by (auto simp: front_hit_def)
  have sh: "side_hit H v r c \<longleftrightarrow> r = H - 1 \<and> c = 2" for r c
    using vc h0 by (auto simp: side_hit_def)
  have top: "\<forall>r<G. \<forall>c<G. top_grid g ! r ! c \<longleftrightarrow> r = 2 \<and> c = 2"
    using g(3) th by simp
  have front: "\<forall>r<G. \<forall>c<G. front_grid g ! r ! c \<longleftrightarrow> r = H - 1 \<and> c = 2"
    using g(4) fh by simp
  have side: "\<forall>r<G. \<forall>c<G. side_grid g ! r ! c \<longleftrightarrow> r = H - 1 \<and> c = 2"
    using g(5) sh by simp
  have ctt: "cell_true (top_grid g) r c \<longleftrightarrow> r = 2 \<and> c = 2" if "r < G" "c < G" for r c
    using cell_true_rect[OF rt(1) that] top that by simp
  have ctf: "cell_true (front_grid g) r c \<longleftrightarrow> r = H - 1 \<and> c = 2" if "r < G" "c < G" for r c
    using cell_true_rect[OF rt(2) that] front that by simp
  have cts: "cell_true (side_grid g) r c \<longleftrightarrow> r = H - 1 \<and> c = 2" if "r < G" "c < G" for r c
    using cell_true_rect[OF rt(3) that] side that by simp
  have hr: "H - 1 < G" using hg h0 by simp
  have lt: "c' < G" if "c' < 2" for c' using that g2 by simp
  have m1: "min_column_spec G (top_grid g) = int 2"
    unfolding min_column_spec_least len
    using ctt g2 lt by (metis less_irrefl_nat)
  have m2: "min_row_spec G (top_grid g) = int 2"
    unfolding min_row_spec_least len
    using ctt g2 lt by (metis less_irrefl_nat)
  have m3: "min_column_spec G (front_grid g) = int 2"
    unfolding min_column_spec_least len
    using ctf g2 lt hr by (metis less_irrefl_nat)
  have m4: "min_column_spec G (side_grid g) = int 2"
    unfolding min_column_spec_least len
    using cts g2 lt hr by (metis less_irrefl_nat)
  have s0: "shiftX_spec G g = 0" "shiftZ_spec G g = 0"
    using m1 m2 m3 m4 by (simp_all add: shiftX_spec_def shiftZ_spec_def)
  have em: "emitted_spec G H g x y z \<longleftrightarrow> x = 2 \<and> y = 0 \<and> z = 2"
    if "x < G" "y < H" "z < G" for x y z
  proof -
    have r: "H - 1 - y < G" using that(2) hg by simp
    have y0: "H - 1 - y = H - 1 \<longleftrightarrow> y = 0" using that(2) by auto
    show ?thesis
      unfolding emitted_spec_def Let_def s0
      using ctt[OF that(3) that(1)] ctf[OF r that(1)] cts[OF r that(3)] y0 that(1,3)
      by auto
  qed
  let ?vs = "reconstruct_spec G H g"
  have i: "intersect2DTo3D G H g = Inr ?vs" by (rule intersect2DTo3D_spec[OF len hg])
  have "set ?vs = {new_voxel 2 0 2}"
  proof (rule set_eqI)
    fix w
    have "w \<in> set ?vs \<longleftrightarrow> (\<exists>x y z. w = new_voxel (int x) (int y) (int z) \<and>
        x < G \<and> y < H \<and> z < G \<and> emitted_spec G H g x y z)"
      unfolding reconstruct_spec_set by blast
    also have "\<dots> \<longleftrightarrow> (\<exists>x y z. w = new_voxel (int x) (int y) (int z) \<and>
        x < G \<and> y < H \<and> z < G \<and> x = 2 \<and> y = 0 \<and> z = 2)"
      using em by blast
    also have "\<dots> \<longleftrightarrow> w = new_voxel 2 0 2"
      using g2 h0 by auto
    finally show "w \<in> set ?vs \<longleftrightarrow> w \<in> {new_voxel 2 0 2}" by simp
  qed
  moreover have "distinct ?vs"
    using reconstruct_spec_distinct[of G H g] by (rule distinct_map[THEN iffD1, THEN conjunct1])
  ultimately have "?vs = [new_voxel 2 0 2]" by (intro distinct_singleton)
  then show ?thesis using g(1) rt top front side i by auto
qed

text \<open>
  C2. Provided \<open>MAX_HEIGHT \<le> GRID_SIZE\<close>: a voxel list whose coordinates are exactly those
  of the whole \<open>GRID_SIZE \<times> MAX_HEIGHT \<times> GRID_SIZE\<close> volume projects to grids from which
  intersect2DTo3D returns voxels with exactly these coordinates, each once. A single
  voxel at \<open>(2, 0, 2)\<close> (with \<open>2 < GRID_SIZE\<close> and \<open>0 < MAX_HEIGHT\<close>) projects to grids
  whose only true cells are \<open>top[2][2]\<close>, \<open>front[MAX_HEIGHT-1][2]\<close> and
  \<open>side[MAX_HEIGHT-1][2]\<close>, and intersect2DTo3D returns from them the one voxel at
  \<open>(2, 0, 2)\<close>.
\<close>

theorem projection_round_trip:
  assumes "H \<le> G"
  shows "(coords ` set voxels = cube_coords G H \<longrightarrow>
       (\<exists>g vs. project3DTo2D G H voxels = Inr g \<and> intersect2DTo3D G H g = Inr vs \<and>
          coords ` set vs = cube_coords G H \<and> distinct (map coords vs))) \<and>
     (2 < G \<and> 0 < H \<and> coords v = (2, 0, 2) \<longrightarrow>
       (\<exists>g. project3DTo2D G H [v] = Inr g \<and>
          rect G G (top_grid g) \<and> rect G G (front_grid g) \<and> rect G G (side_grid g) \<and>
          (\<forall>r<G. \<forall>c<G. top_grid g ! r ! c \<longleftrightarrow> r = 2 \<and> c = 2) \<and>
          (\<forall>r<G. \<forall>c<G. front_grid g ! r ! c \<longleftrightarrow> r = H - 1 \<and> c = 2) \<and>
          (\<forall>r<G. \<forall>c<G. side_grid g ! r ! c \<longleftrightarrow> r = H - 1 \<and> c = 2) \<and>
          intersect2DTo3D G H g = Inr [new_voxel 2 0 2]))"
  using dense_round_trip[OF assms, of voxels] single_round_trip[OF assms, of v]
  by blast

theorem projection_round_trip_witness:
  "MAX_HEIGHT \<le> GRID_SIZE \<and>
   coords ` set (full_cube GRID_SIZE MAX_HEIGHT) = cube_coords GRID_SIZE MAX_HEIGHT \<and>
   (\<exists>g vs. project3DTo2D GRID_SIZE MAX_HEIGHT (full_cube GRID_SIZE MAX_HEIGHT) = Inr g \<and>
      intersect2DTo3D GRID_SIZE MAX_HEIGHT g = Inr vs \<and>
      coords ` set vs = cube_coords GRID_SIZE MAX_HEIGHT \<and> distinct (map coords vs)) \<and>
   2 < GRID_SIZE \<and> 0 < MAX_HEIGHT \<and> coords (new_voxel 2 0 2) = (2, 0, 2) \<and>
   (\<exists>g. project3DTo2D GRID_SIZE MAX_HEIGHT [new_voxel 2 0 2] = Inr g \<and>
      top_grid g ! 2 ! 2 \<and> front_grid g ! (MAX_HEIGHT - 1) ! 2 \<and>
      side_grid g ! (MAX_HEIGHT - 1) ! 2 \<and> \<not> top_grid g ! 2 ! 3 \<and>
      intersect2DTo3D GRID_SIZE MAX_HEIGHT g = Inr [new_voxel 2 0 2])"
proof -
  have h: "MAX_HEIGHT \<le> GRID_SIZE" "2 < GRID_SIZE" "0 < MAX_HEIGHT" "3 < GRID_SIZE"
     "MAX_HEIGHT - 1 < GRID_SIZE"
    by (simp_all add: MAX_HEIGHT_def GRID_SIZE_def)
  have c: "coords (new_voxel 2 0 2) = (2, 0, 2)" by (rule coords_new_voxel)
  note t = projection_round_trip[OF h(1), of "full_cube GRID_SIZE MAX_HEIGHT" "new_voxel 2 0 2"]
  from t coords_full_cube[of GRID_SIZE MAX_HEIGHT]
  have a: "\<exists>g vs. project3DTo2D GRID_SIZE MAX_HEIGHT (full_cube GRID_SIZE MAX_HEIGHT) = Inr g \<and>
      intersect2DTo3D GRID_SIZE MAX_HEIGHT g = Inr vs \<and>
      coords ` set vs = cube_coords GRID_SIZE MAX_HEIGHT \<and> distinct (map coords vs)"
    by blast
  from t h c obtain g where
    g: "project3DTo2D GRID_SIZE MAX_HEIGHT [new_voxel 2 0 2] = Inr g"
       "\<forall>r<GRID_SIZE. \<forall>c<GRID_SIZE. top_grid g ! r ! c \<longleftrightarrow> r = 2 \<and> c = 2"
       "\<forall>r<GRID_SIZE. \<forall>c<GRID_SIZE. front_grid g ! r ! c \<longleftrightarrow> r = MAX_HEIGHT - 1 \<and> c = 2"
       "\<forall>r<GRID_SIZE. \<forall>c<GRID_SIZE. side_grid g ! r ! c \<longleftrightarrow> r = MAX_HEIGHT - 1 \<and> c = 2"
       "intersect2DTo3D GRID_SIZE MAX_HEIGHT g = Inr [new_voxel 2 0 2]"
    by blast
  have "top_grid g ! 2 ! 2" "\<not> top_grid g ! 2 ! 3"
    using g(2)[rule_format, OF h(2) h(2)] g(2)[rule_format, OF h(2) h(4)] by simp_all
  moreover have "front_grid g ! (MAX_HEIGHT - 1) ! 2" "side_grid g ! (MAX_HEIGHT - 1) ! 2"
    using g(3)[rule_format, OF h(5) h(2)] g(4)[rule_format, OF h(5) h(2)] by simp_all
  ultimately have b: "\<exists>g. project3DTo2D GRID_SIZE MAX_HEIGHT [new_voxel 2 0 2] = Inr g \<and>
      top_grid g ! 2 ! 2 \<and> front_grid g ! (MAX_HEIGHT - 1) ! 2 \<and>
      side_grid g ! (MAX_HEIGHT - 1) ! 2 \<and> \<not> top_grid g ! 2 ! 3 \<and>
      intersect2DTo3D GRID_SIZE MAX_HEIGHT g = Inr [new_voxel 2 0 2]"
    using g(1) g(5) by blast
  show ?thesis using h c a b coords_full_cube by blast
qed

section \<open>Annotation grids\<close>

lemma get_cell_in:
  assumes "rect R C g" "0 \<le> r" "r < int R" "0 \<le> c" "c < int C"
  shows "get_cell g r c = Inr (Some (g ! nat r ! nat c))"
  using assms by (simp add: get_cell_def row_at_def elem_at_def rect_def list_all_length)

lemma get_cell_out:
  assumes "rect R C g" "0 \<le> r" "r < int R" "\<not> (0 \<le> c \<and> c < int C)"
  shows "get_cell g r c = Inr None"
  using assms by (simp add: get_cell_def row_at_def elem_at_def rect_def list_all_length)


lemma top_number_step_ok:
  assumes g: "rect G G grid" and z: "0 \<le> vz v" "vz v < int G"
  shows "\<exists>g'. top_number_step grid v = Inr g' \<and> rect G G g' \<and>
     (\<forall>r<G. \<forall>c<G. g' ! r ! c =
        (if vz v = int r \<and> vx v = int c then max (grid ! r ! c) (vy v + 1) else grid ! r ! c))"
proof (cases "0 \<le> vx v \<and> vx v < int G")
  case False
  then have "top_number_step grid v = Inr grid"
    by (simp add: top_number_step_def get_cell_out[OF g z])
  moreover have "\<not> vx v = int c" if "c < G" for c using False that by auto
  ultimately show ?thesis using g by simp
next
  case True
  then have x: "0 \<le> vx v" "vx v < int G" by simp_all
  let ?cur = "grid ! nat (vz v) ! nat (vx v)"
  have gc: "get_cell grid (vz v) (vx v) = Inr (Some ?cur)" by (rule get_cell_in[OF g z x])
  have nz: "nat (vz v) < G" "nat (vx v) < G" using z x by simp_all
  show ?thesis
  proof (cases "?cur < vy v + 1")
    case False
    then have "top_number_step grid v = Inr grid" by (simp add: top_number_step_def gc)
    moreover have "max ?cur (vy v + 1) = ?cur" using False by simp
    ultimately show ?thesis using g by (auto simp: nat_eq_iff)
  next
    case lt: True
    let ?g' = "grid[nat (vz v) := (grid ! nat (vz v))[nat (vx v) := vy v + 1]]"
    have s: "top_number_step grid v = Inr ?g'"
      using lt by (simp add: top_number_step_def gc set_cell_ok[OF g z x])
    have cells: "?g' ! r ! c =
        (if vz v = int r \<and> vx v = int c then max (grid ! r ! c) (vy v + 1) else grid ! r ! c)"
      if "r < G" "c < G" for r c
    proof -
      have "?g' ! r ! c = (if r = nat (vz v) \<and> c = nat (vx v) then vy v + 1 else grid ! r ! c)"
        by (rule nth_update2[OF g nz that])
      also have "\<dots> = (if vz v = int r \<and> vx v = int c then max (grid ! r ! c) (vy v + 1) else grid ! r ! c)"
        using lt z x by (auto simp: nat_eq_iff)
      finally show ?thesis .
    qed
    show ?thesis using s rect_update[OF g] cells by blast
  qed
qed


lemma top_numbers_forEach:
  assumes "rect G G grid" "\<forall>v\<in>set vs. 0 \<le> vz v \<and> vz v < int G"
  shows "\<exists>g'. forEach top_number_step vs grid = Inr g' \<and> rect G G g' \<and>
     (\<forall>r<G. \<forall>c<G. g' ! r ! c = fold max (column_heights vs r c) (grid ! r ! c))"
  using assms
proof (induction vs arbitrary: grid)
  case Nil
  then show ?case by (simp add: column_heights_def)
next
  case (Cons v vs)
  have z: "0 \<le> vz v" "vz v < int G" using Cons.prems(2) by simp_all
  from top_number_step_ok[OF Cons.prems(1) z] obtain g1 where
    g1: "top_number_step grid v = Inr g1" "rect G G g1"
      "\<forall>r<G. \<forall>c<G. g1 ! r ! c =
        (if vz v = int r \<and> vx v = int c then max (grid ! r ! c) (vy v + 1) else grid ! r ! c)"
    by blast
  have "\<forall>v\<in>set vs. 0 \<le> vz v \<and> vz v < int G" using Cons.prems(2) by simp
  from Cons.IH[OF g1(2) this] obtain g2 where
    g2: "forEach top_number_step vs g1 = Inr g2" "rect G G g2"
      "\<forall>r<G. \<forall>c<G. g2 ! r ! c = fold max (column_heights vs r c) (g1 ! r ! c)"
    by blast
  have "g2 ! r ! c = fold max (column_heights (v # vs) r c) (grid ! r ! c)"
    if "r < G" "c < G" for r c
    using g2(3) g1(3) that by (simp add: column_heights_def max.commute)
  then show ?case using g1(1) g2(1) g2(2) by simp
qed


lemma count_step_ok:
  assumes g: "rect H G grid"
  shows "\<exists>g'. count_step G H grid row col = Inr g' \<and> rect H G g' \<and>
     (\<forall>r<H. \<forall>c<G. g' ! r ! c = (if row = int r \<and> col = int c then grid ! r ! c + 1 else grid ! r ! c))"
proof (cases "0 \<le> row \<and> row < int H \<and> 0 \<le> col \<and> col < int G")
  case False
  have "count_step G H grid row col = Inr grid"
    unfolding count_step_def by (rule if_not_P[OF False])
  moreover have "\<not> (row = int r \<and> col = int c)" if "r < H" "c < G" for r c
    using False that by auto
  ultimately show ?thesis using g by auto
next
  case True
  then have rc: "0 \<le> row" "row < int H" "0 \<le> col" "col < int G" by simp_all
  let ?n = "grid ! nat row ! nat col"
  let ?g' = "grid[nat row := (grid ! nat row)[nat col := ?n + 1]]"
  have nz: "nat row < H" "nat col < G" using rc by simp_all
  have s: "count_step G H grid row col = Inr ?g'"
    using True by (simp add: count_step_def get_cell_in[OF g rc] set_cell_ok[OF g rc])
  have cells: "?g' ! r ! c = (if row = int r \<and> col = int c then grid ! r ! c + 1 else grid ! r ! c)"
    if "r < H" "c < G" for r c
  proof -
    have "?g' ! r ! c = (if r = nat row \<and> c = nat col then ?n + 1 else grid ! r ! c)"
      by (rule nth_update2[OF g nz that])
    also have "\<dots> = (if row = int r \<and> col = int c then grid ! r ! c + 1 else grid ! r ! c)"
      using rc by (auto simp: nat_eq_iff)
    finally show ?thesis .
  qed
  show ?thesis using s rect_update[OF g] cells by blast
qed

lemma count_forEach:
  assumes "rect H G grid"
  shows "\<exists>g'. forEach (\<lambda>grid v. count_step G H grid (int H - 1 - vy v) (col v)) vs grid = Inr g' \<and>
     rect H G g' \<and>
     (\<forall>r<H. \<forall>c<G. g' ! r ! c = grid ! r ! c + int (counted G H col vs r c))"
  using assms
proof (induction vs arbitrary: grid)
  case Nil
  then show ?case by (simp add: counted_def)
next
  case (Cons v vs)
  from count_step_ok[OF Cons.prems, of "int H - 1 - vy v" "col v"] obtain g1 where
    g1: "count_step G H grid (int H - 1 - vy v) (col v) = Inr g1" "rect H G g1"
      "\<forall>r<H. \<forall>c<G. g1 ! r ! c =
         (if int H - 1 - vy v = int r \<and> col v = int c then grid ! r ! c + 1 else grid ! r ! c)"
    by blast
  from Cons.IH[OF g1(2)] obtain g2 where
    g2: "forEach (\<lambda>grid v. count_step G H grid (int H - 1 - vy v) (col v)) vs g1 = Inr g2"
      "rect H G g2"
      "\<forall>r<H. \<forall>c<G. g2 ! r ! c = g1 ! r ! c + int (counted G H col vs r c)"
    by blast
  have "g2 ! r ! c = grid ! r ! c + int (counted G H col (v # vs) r c)"
    if "r < H" "c < G" for r c
  proof -
    have "int H - 1 - vy v = int r \<Longrightarrow> 0 \<le> vy v \<and> vy v < int H" using that(1) by linarith
    then show ?thesis using g2(3) g1(3) that by (auto simp: counted_def)
  qed
  then show ?case using g1(1) g2(1) g2(2) by simp
qed

lemma null_zeros_nth:
  assumes "rect R C g" "r < R" "c < C"
  shows "null_zeros g ! r ! c = (if g ! r ! c = 0 then None else Some (g ! r ! c))"
  using assms by (simp add: null_zeros_def rect_def list_all_length)

lemma rect_null_zeros: "rect R C g \<Longrightarrow> rect R C (null_zeros g)"
  by (simp add: null_zeros_def rect_def list_all_length)

lemma fold_max_Max: "fold max hs (a::int) = Max (set (a # hs))"
  by (rule Max.set_eq_fold[symmetric])

lemma top_numbers_cells:
  assumes "\<forall>v\<in>set vs. 0 \<le> vz v \<and> vz v < int G"
  shows "\<exists>t. generateTopViewNumbers G vs = Inr t \<and> rect G G t \<and>
     (\<forall>z<G. \<forall>x<G. t ! z ! x =
        (let h = Max (set (0 # column_heights vs z x)) in if h = 0 then None else Some h))"
proof -
  have r0: "rect G G (new_grid G G (0::int))" by (rule rect_new_grid)
  from top_numbers_forEach[OF r0 assms] obtain g where
    g: "forEach top_number_step vs (new_grid G G 0) = Inr g" "rect G G g"
       "\<forall>r<G. \<forall>c<G. g ! r ! c = fold max (column_heights vs r c) (new_grid G G 0 ! r ! c)"
    by blast
  have "null_zeros g ! z ! x =
      (let h = Max (set (0 # column_heights vs z x)) in if h = 0 then None else Some h)"
    if "z < G" "x < G" for z x
    using g(3) that by (simp add: null_zeros_nth[OF g(2) that] new_grid_nth fold_max_Max Let_def)
  then show ?thesis
    using g(1) rect_null_zeros[OF g(2)] by (simp add: generateTopViewNumbers_def)
qed

lemma column_heights_Max:
  assumes "\<forall>v\<in>set vs. 0 \<le> vy v"
  shows "(let h = Max (set (0 # column_heights vs z x)) in if h = 0 then None else Some h) =
     (if \<exists>v\<in>set vs. vx v = int x \<and> vz v = int z
      then Some (Max {vy v + 1 | v. v \<in> set vs \<and> vx v = int x \<and> vz v = int z})
      else None)"
proof -
  let ?S = "{vy v + 1 | v. v \<in> set vs \<and> vx v = int x \<and> vz v = int z}"
  have S: "set (column_heights vs z x) = ?S"
    by (auto simp: column_heights_def)
  have fin: "finite ?S" using S by (metis List.finite_set)
  show ?thesis
  proof (cases "\<exists>v\<in>set vs. vx v = int x \<and> vz v = int z")
    case False
    then have "column_heights vs z x = []"
      by (auto simp: column_heights_def filter_empty_conv)
    then show ?thesis using False by simp
  next
    case True
    then have ne: "?S \<noteq> {}" by auto
    have pos: "\<forall>h\<in>?S. 1 \<le> h" using assms by auto
    have "1 \<le> Max ?S" using Max_in[OF fin ne] pos by blast
    moreover have "Max (insert 0 ?S) = max 0 (Max ?S)" by (rule Max_insert[OF fin ne])
    ultimately have "Max (set (0 # column_heights vs z x)) = Max ?S \<and> Max ?S \<noteq> 0"
      using S by simp
    then show ?thesis using True by (simp add: Let_def)
  qed
qed

lemma count_numbers_cells:
  "\<exists>f. (case forEach (\<lambda>grid v. count_step G H grid (int H - 1 - vy v) (col v)) vs (new_grid H G 0) of
          Inl e \<Rightarrow> Inl e | Inr grid \<Rightarrow> Inr (null_zeros grid)) = Inr f \<and> rect H G f \<and>
     (\<forall>r<H. \<forall>c<G. f ! r ! c =
        (if counted G H col vs r c = 0 then None else Some (int (counted G H col vs r c))))"
proof -
  have r0: "rect H G (new_grid H G (0::int))" by (rule rect_new_grid)
  from count_forEach[OF r0, of col vs] obtain g where
    g: "forEach (\<lambda>grid v. count_step G H grid (int H - 1 - vy v) (col v)) vs (new_grid H G 0) = Inr g"
       "rect H G g"
       "\<forall>r<H. \<forall>c<G. g ! r ! c = new_grid H G 0 ! r ! c + int (counted G H col vs r c)"
    by blast
  have "null_zeros g ! r ! c =
      (if counted G H col vs r c = 0 then None else Some (int (counted G H col vs r c)))"
    if "r < H" "c < G" for r c
    using g(3) that by (simp add: null_zeros_nth[OF g(2) that] new_grid_nth)
  then show ?thesis using g(1) rect_null_zeros[OF g(2)] by simp
qed

lemma counted_row:
  assumes "y < H"
  shows "counted G H col vs (H - 1 - y) c = length (filter (\<lambda>v. col v = int c \<and> vy v = int y) vs)"
proof -
  have "(0 \<le> vy v \<and> vy v < int H \<and> int H - 1 - vy v = int (H - 1 - y) \<and> col v = int c)
      = (col v = int c \<and> vy v = int y)" for v
    using assms by auto
  then show ?thesis unfolding counted_def by simp
qed

text \<open>
  C5. For a voxel list with all coordinates inside the grid: the cell \<open>[z][x]\<close> of the top
  numbers is the largest \<open>y + 1\<close> over the voxels of that column, or null when the column
  has none; the cell \<open>[MAX_HEIGHT-1-y][x]\<close> of the front numbers is the number of voxels
  with these \<open>x\<close> and \<open>y\<close>, and the cell \<open>[MAX_HEIGHT-1-y][z]\<close> of the side numbers the
  number of voxels with these \<open>z\<close> and \<open>y\<close>, each null when that number is zero. No cell
  holds the number 0.
\<close>

theorem annotation_grids:
  assumes "\<forall>v\<in>set voxels. 0 \<le> vx v \<and> vx v < int G \<and> 0 \<le> vy v \<and> vy v < int H \<and>
             0 \<le> vz v \<and> vz v < int G"
  shows "(\<exists>t. generateTopViewNumbers G voxels = Inr t \<and>
        (\<forall>z<G. \<forall>x<G. t ! z ! x =
           (if \<exists>v\<in>set voxels. vx v = int x \<and> vz v = int z
            then Some (Max {vy v + 1 | v. v \<in> set voxels \<and> vx v = int x \<and> vz v = int z})
            else None) \<and> t ! z ! x \<noteq> Some 0)) \<and>
     (\<exists>f. generateFrontViewNumbers G H voxels = Inr f \<and>
        (\<forall>y<H. \<forall>x<G. f ! (H - 1 - y) ! x =
           (let n = length (filter (\<lambda>v. vx v = int x \<and> vy v = int y) voxels)
            in if n = 0 then None else Some (int n)) \<and> f ! (H - 1 - y) ! x \<noteq> Some 0)) \<and>
     (\<exists>s. generateSideViewNumbers G H voxels = Inr s \<and>
        (\<forall>y<H. \<forall>z<G. s ! (H - 1 - y) ! z =
           (let n = length (filter (\<lambda>v. vz v = int z \<and> vy v = int y) voxels)
            in if n = 0 then None else Some (int n)) \<and> s ! (H - 1 - y) ! z \<noteq> Some 0))"
proof (intro conjI)
  have zr: "\<forall>v\<in>set voxels. 0 \<le> vz v \<and> vz v < int G" and yr: "\<forall>v\<in>set voxels. 0 \<le> vy v"
    using assms by simp_all
  from top_numbers_cells[OF zr] obtain t where
    t: "generateTopViewNumbers G voxels = Inr t"
       "\<forall>z<G. \<forall>x<G. t ! z ! x =
        (let h = Max (set (0 # column_heights voxels z x)) in if h = 0 then None else Some h)"
    by blast
  have "t ! z ! x =
           (if \<exists>v\<in>set voxels. vx v = int x \<and> vz v = int z
            then Some (Max {vy v + 1 | v. v \<in> set voxels \<and> vx v = int x \<and> vz v = int z})
            else None) \<and> t ! z ! x \<noteq> Some 0" if "z < G" "x < G" for z x
  proof -
    have a: "t ! z ! x =
        (let h = Max (set (0 # column_heights voxels z x)) in if h = 0 then None else Some h)"
      using t(2) that by simp
    then have "t ! z ! x \<noteq> Some 0" by (simp add: Let_def)
    then show ?thesis using a unfolding column_heights_Max[OF yr] by simp
  qed
  then show "\<exists>t. generateTopViewNumbers G voxels = Inr t \<and>
        (\<forall>z<G. \<forall>x<G. t ! z ! x =
           (if \<exists>v\<in>set voxels. vx v = int x \<and> vz v = int z
            then Some (Max {vy v + 1 | v. v \<in> set voxels \<and> vx v = int x \<and> vz v = int z})
            else None) \<and> t ! z ! x \<noteq> Some 0)"
    using t(1) by blast
next
  from count_numbers_cells[of G H vx voxels] obtain f where
    f: "generateFrontViewNumbers G H voxels = Inr f"
       "\<forall>r<H. \<forall>c<G. f ! r ! c =
        (if counted G H vx voxels r c = 0 then None else Some (int (counted G H vx voxels r c)))"
    unfolding generateFrontViewNumbers_def by blast
  have "f ! (H - 1 - y) ! x =
           (let n = length (filter (\<lambda>v. vx v = int x \<and> vy v = int y) voxels)
            in if n = 0 then None else Some (int n)) \<and> f ! (H - 1 - y) ! x \<noteq> Some 0"
    if "y < H" "x < G" for y x
  proof -
    have "H - 1 - y < H" using that(1) by simp
    then have "f ! (H - 1 - y) ! x =
        (if counted G H vx voxels (H - 1 - y) x = 0 then None
         else Some (int (counted G H vx voxels (H - 1 - y) x)))"
      using f(2) that(2) by blast
    then show ?thesis unfolding counted_row[OF that(1)] by (simp add: Let_def)
  qed
  then show "\<exists>f. generateFrontViewNumbers G H voxels = Inr f \<and>
        (\<forall>y<H. \<forall>x<G. f ! (H - 1 - y) ! x =
           (let n = length (filter (\<lambda>v. vx v = int x \<and> vy v = int y) voxels)
            in if n = 0 then None else Some (int n)) \<and> f ! (H - 1 - y) ! x \<noteq> Some 0)"
    using f(1) by blast
next
  from count_numbers_cells[of G H vz voxels] obtain s where
    s: "generateSideViewNumbers G H voxels = Inr s"
       "\<forall>r<H. \<forall>c<G. s ! r ! c =
        (if counted G H vz voxels r c = 0 then None else Some (int (counted G H vz voxels r c)))"
    unfolding generateSideViewNumbers_def by blast
  have "s ! (H - 1 - y) ! z =
           (let n = length (filter (\<lambda>v. vz v = int z \<and> vy v = int y) voxels)
            in if n = 0 then None else Some (int n)) \<and> s ! (H - 1 - y) ! z \<noteq> Some 0"
    if "y < H" "z < G" for y z
  proof -
    have "H - 1 - y < H" using that(1) by simp
    then have "s ! (H - 1 - y) ! z =
        (if counted G H vz voxels (H - 1 - y) z = 0 then None
         else Some (int (counted G H vz voxels (H - 1 - y) z)))"
      using s(2) that(2) by blast
    then show ?thesis unfolding counted_row[OF that(1)] by (simp add: Let_def)
  qed
  then show "\<exists>s. generateSideViewNumbers G H voxels = Inr s \<and>
        (\<forall>y<H. \<forall>z<G. s ! (H - 1 - y) ! z =
           (let n = length (filter (\<lambda>v. vz v = int z \<and> vy v = int y) voxels)
            in if n = 0 then None else Some (int n)) \<and> s ! (H - 1 - y) ! z \<noteq> Some 0)"
    using s(1) by blast
qed

theorem annotation_grids_witness:
  "list_all (in_grid GRID_SIZE MAX_HEIGHT) [new_voxel 1 0 2, new_voxel 1 1 2, new_voxel 1 0 3] \<and>
   (\<exists>t. generateTopViewNumbers GRID_SIZE [new_voxel 1 0 2, new_voxel 1 1 2, new_voxel 1 0 3] = Inr t \<and>
      t ! 2 ! 1 = Some 2 \<and> t ! 3 ! 1 = Some 1 \<and> t ! 0 ! 0 = None) \<and>
   (\<exists>f. generateFrontViewNumbers GRID_SIZE MAX_HEIGHT
          [new_voxel 1 0 2, new_voxel 1 1 2, new_voxel 1 0 3] = Inr f \<and>
      f ! 4 ! 1 = Some 2 \<and> f ! 3 ! 1 = Some 1 \<and> f ! 2 ! 1 = None) \<and>
   (\<exists>s. generateSideViewNumbers GRID_SIZE MAX_HEIGHT
          [new_voxel 1 0 2, new_voxel 1 1 2, new_voxel 1 0 3] = Inr s \<and>
      s ! 4 ! 2 = Some 1 \<and> s ! 4 ! 3 = Some 1 \<and> s ! 4 ! 4 = None)"
proof -
  let ?vs = "[new_voxel 1 0 2, new_voxel 1 1 2, new_voxel 1 0 3]"
  have b: "\<forall>v\<in>set ?vs.
      0 \<le> vx v \<and> vx v < int GRID_SIZE \<and> 0 \<le> vy v \<and> vy v < int MAX_HEIGHT \<and>
      0 \<le> vz v \<and> vz v < int GRID_SIZE"
    by (simp add: new_voxel_def GRID_SIZE_def MAX_HEIGHT_def)
  note ag = annotation_grids[OF b]
  have im: "{vy v + 1 | v. v \<in> set ?vs \<and> vx v = x \<and> vz v = z}
      = (\<lambda>v. vy v + 1) ` set (filter (\<lambda>v. vx v = x \<and> vz v = z) ?vs)" for x z
    by auto
  have m21: "{vy v + 1 | v. v \<in> set ?vs \<and> vx v = int 1 \<and> vz v = int 2} = {1, 2}"
    unfolding im by (simp add: new_voxel_def)
  have m31: "{vy v + 1 | v. v \<in> set ?vs \<and> vx v = int 1 \<and> vz v = int 3} = {1}"
    unfolding im by (simp add: new_voxel_def)
  from ag obtain t where
    t: "generateTopViewNumbers GRID_SIZE ?vs = Inr t"
       "\<forall>z<GRID_SIZE. \<forall>x<GRID_SIZE. t ! z ! x =
           (if \<exists>v\<in>set ?vs. vx v = int x \<and> vz v = int z
            then Some (Max {vy v + 1 | v. v \<in> set ?vs \<and> vx v = int x \<and> vz v = int z})
            else None) \<and> t ! z ! x \<noteq> Some 0"
    by blast
  have t1: "t ! 2 ! 1 = Some 2"
    using t(2)[rule_format, of 2 1] m21 by (simp add: GRID_SIZE_def new_voxel_def)
  have t2: "t ! 3 ! 1 = Some 1"
    using t(2)[rule_format, of 3 1] m31 by (simp add: GRID_SIZE_def new_voxel_def)
  have t3: "t ! 0 ! 0 = None"
    using t(2)[rule_format, of 0 0] by (simp add: GRID_SIZE_def new_voxel_def)
  from ag obtain f where
    f: "generateFrontViewNumbers GRID_SIZE MAX_HEIGHT ?vs = Inr f"
       "\<forall>y<MAX_HEIGHT. \<forall>x<GRID_SIZE. f ! (MAX_HEIGHT - 1 - y) ! x =
           (let n = length (filter (\<lambda>v. vx v = int x \<and> vy v = int y) ?vs)
            in if n = 0 then None else Some (int n)) \<and> f ! (MAX_HEIGHT - 1 - y) ! x \<noteq> Some 0"
    by blast
  have f1: "f ! 4 ! 1 = Some 2" "f ! 3 ! 1 = Some 1" "f ! 2 ! 1 = None"
    using f(2)[rule_format, of 0 1] f(2)[rule_format, of 1 1] f(2)[rule_format, of 2 1]
    by (simp_all add: GRID_SIZE_def MAX_HEIGHT_def new_voxel_def)
  from ag obtain s where
    s: "generateSideViewNumbers GRID_SIZE MAX_HEIGHT ?vs = Inr s"
       "\<forall>y<MAX_HEIGHT. \<forall>z<GRID_SIZE. s ! (MAX_HEIGHT - 1 - y) ! z =
           (let n = length (filter (\<lambda>v. vz v = int z \<and> vy v = int y) ?vs)
            in if n = 0 then None else Some (int n)) \<and> s ! (MAX_HEIGHT - 1 - y) ! z \<noteq> Some 0"
    by blast
  have s1: "s ! 4 ! 2 = Some 1" "s ! 4 ! 3 = Some 1" "s ! 4 ! 4 = None"
    using s(2)[rule_format, of 0 2] s(2)[rule_format, of 0 3] s(2)[rule_format, of 0 4]
    by (simp_all add: GRID_SIZE_def MAX_HEIGHT_def new_voxel_def)
  have b': "list_all (in_grid GRID_SIZE MAX_HEIGHT) ?vs"
    using b by (simp add: in_grid_def)
  show ?thesis using b' t(1) t1 t2 t3 f(1) f1 s(1) s1 by blast
qed







section \<open>Adding a voxel\<close>









text \<open>
  Two calls from the same render: the second still tests the list of that render, in
  which the coordinate is free, and appends a second voxel at it.
\<close>

lemma handleAddVoxel_same_render:
  "handleAddVoxel GRID_SIZE MAX_HEIGHT
     \<lparr>st_voxels = [], st_mode = Edit3D, st_selectedColor = ''#F59E0B''\<rparr>
     (handleAddVoxel GRID_SIZE MAX_HEIGHT
        \<lparr>st_voxels = [], st_mode = Edit3D, st_selectedColor = ''#F59E0B''\<rparr> [] 0 0 0)
     0 0 0
   = [\<lparr>vx = 0, vy = 0, vz = 0, vid = coord_key 0 0 0, vcolor = Some ''#F59E0B''\<rparr>,
      \<lparr>vx = 0, vy = 0, vz = 0, vid = coord_key 0 0 0, vcolor = Some ''#F59E0B''\<rparr>]"
  by (simp add: handleAddVoxel_def GRID_SIZE_def MAX_HEIGHT_def)




section \<open>Decoding\<close>

lemma member_field: "v \<noteq> JNull \<Longrightarrow> member v k = Inr (field v k)"
  by (cases v) (simp_all add: field_def)

lemma to_string_plain:
  "(plain j \<longrightarrow> (\<exists>s. to_string num_str j = Inr s)) \<and>
   (\<not> plain j \<longrightarrow> to_string num_str j = Inl TypeError)"
  "(list_all plain xs \<longrightarrow> (\<exists>s. join_elements num_str xs = Inr s)) \<and>
   (\<not> list_all plain xs \<longrightarrow> join_elements num_str xs = Inl TypeError)"
proof (induction num_str j and num_str xs rule: to_string_join_elements.induct)
  case (8 num_str x xs)
  let ?h = "if x = JNull then Inr [] else to_string num_str x"
  show ?case
  proof (cases ?h)
    case (Inl e)
    then have x: "x \<noteq> JNull" "to_string num_str x = Inl e" by (auto split: if_splits)
    have "\<not> plain x" "e = TypeError" using 8(1)[OF x(1)] x(2) by auto
    then show ?thesis using Inl by simp
  next
    case (Inr s)
    have px: "plain x"
    proof (cases "x = JNull")
      case True
      then show ?thesis by simp
    next
      case False
      then have "to_string num_str x = Inr s" using Inr by simp
      then show ?thesis using 8(1)[OF False] by auto
    qed
    show ?thesis
    proof (cases "xs = []")
      case True
      then show ?thesis using Inr px by simp
    next
      case False
      note ih = 8(2)[OF Inr False]
      show ?thesis
      proof (cases "list_all plain xs")
        case True
        then obtain t where "join_elements num_str xs = Inr t" using ih by blast
        then show ?thesis using Inr px True False by simp
      next
        case nx: False
        then have "join_elements num_str xs = Inl TypeError" using ih by blast
        then show ?thesis using Inr px nx False by simp
      qed
    qed
  qed
qed simp_all

lemma template_string_plain:
  "(case v of None \<Rightarrow> True | Some j \<Rightarrow> plain j) \<Longrightarrow>
     template_string num_str v = Inr (rendered num_str v)"
  "\<not> (case v of None \<Rightarrow> True | Some j \<Rightarrow> plain j) \<Longrightarrow>
     template_string num_str v = Inl TypeError"
proof -
  show "template_string num_str v = Inr (rendered num_str v)"
    if "case v of None \<Rightarrow> True | Some j \<Rightarrow> plain j"
  proof (cases v)
    case None
    then show ?thesis by (simp add: template_string_def rendered_def)
  next
    case (Some j)
    then have "plain j" using that by simp
    then obtain s where "to_string num_str j = Inr s"
      using to_string_plain(1)[of j num_str] by blast
    then show ?thesis using Some by (simp add: template_string_def rendered_def)
  qed
  show "template_string num_str v = Inl TypeError"
    if "\<not> (case v of None \<Rightarrow> True | Some j \<Rightarrow> plain j)"
  proof (cases v)
    case None
    then show ?thesis using that by simp
  next
    case (Some j)
    then have "\<not> plain j" using that by simp
    then have "to_string num_str j = Inl TypeError"
      using to_string_plain(1)[of j num_str] by blast
    then show ?thesis using Some by (simp add: template_string_def)
  qed
qed

lemma decode_record_null: "decode_record num_str JNull = Inl TypeError"
  by (simp add: decode_record_def)

lemma decode_record_ok:
  assumes "record_ok v"
  shows "decode_record num_str v = Inr (copied_record num_str v)"
proof -
  have n: "v \<noteq> JNull" and p: "plain_field v ''x''" "plain_field v ''y''" "plain_field v ''z''"
    using assms by (simp_all add: record_ok_def)
  have t: "template_string num_str (field v ''x'') = Inr (rendered num_str (field v ''x''))"
      "template_string num_str (field v ''y'') = Inr (rendered num_str (field v ''y''))"
      "template_string num_str (field v ''z'') = Inr (rendered num_str (field v ''z''))"
    using p by (simp_all add: plain_field_def template_string_plain(1))
  show ?thesis
    unfolding decode_record_def member_field[OF n] sum.case t copied_record_def by (rule refl)
qed

lemma decode_record_throws:
  assumes "\<not> record_ok v"
  shows "decode_record num_str v = Inl TypeError"
proof (cases "v = JNull")
  case True
  then show ?thesis by (simp add: decode_record_null)
next
  case False
  have t: "template_string num_str (field v k) = Inr (rendered num_str (field v k)) \<or>
      template_string num_str (field v k) = Inl TypeError" for k
    using template_string_plain[of "field v k" num_str] by blast
  have "\<not> plain_field v ''x'' \<or> \<not> plain_field v ''y'' \<or> \<not> plain_field v ''z''"
    using assms False by (simp add: record_ok_def)
  then have "template_string num_str (field v ''x'') = Inl TypeError \<or>
      template_string num_str (field v ''y'') = Inl TypeError \<or>
      template_string num_str (field v ''z'') = Inl TypeError"
    using template_string_plain(2) by (auto simp: plain_field_def)
  then show ?thesis
    using t[of "''x''"] t[of "''y''"] t[of "''z''"]
    unfolding decode_record_def member_field[OF False] sum.case
    by (auto split: sum.splits)
qed

lemma map_throwing_ok:
  assumes "\<forall>x\<in>set xs. f x = Inr (g x)"
  shows "map_throwing f xs = Inr (map g xs)"
  using assms by (induction xs) simp_all

lemma map_throwing_fail:
  assumes "\<exists>x\<in>set xs. f x = Inl e" "\<forall>x\<in>set xs. f x = Inl e \<or> (\<exists>y. f x = Inr y)"
  shows "map_throwing f xs = Inl e"
  using assms
proof (induction xs)
  case Nil
  then show ?case by simp
next
  case (Cons x xs)
  show ?case
  proof (cases "f x")
    case (Inl a)
    then show ?thesis using Cons.prems(2) by auto
  next
    case (Inr y)
    then have "\<exists>x\<in>set xs. f x = Inl e" using Cons.prems(1) by auto
    then have "map_throwing f xs = Inl e" using Cons.IH Cons.prems(2) by simp
    then show ?thesis using Inr by simp
  qed
qed

lemma decode_array:
  "map_throwing (decode_record num_str) xs =
     (if list_all record_ok xs then Inr (map (copied_record num_str) xs) else Inl TypeError)"
proof (cases "list_all record_ok xs")
  case True
  then have "\<forall>x\<in>set xs. decode_record num_str x = Inr (copied_record num_str x)"
    using decode_record_ok by (auto simp: list_all_iff)
  then show ?thesis using True by (simp add: map_throwing_ok)
next
  case False
  have "map_throwing (decode_record num_str) xs = Inl TypeError"
  proof (rule map_throwing_fail)
    show "\<exists>x\<in>set xs. decode_record num_str x = Inl TypeError"
      using False decode_record_throws by (auto simp: list_all_iff)
    show "\<forall>x\<in>set xs. decode_record num_str x = Inl TypeError \<or> (\<exists>y. decode_record num_str x = Inr y)"
      using decode_record_ok decode_record_throws by blast
  qed
  then show ?thesis using False by simp
qed

lemma decodeVoxels_array:
  assumes "atob encoded = Inr b" "duc b = Inr s" "parse s = Inr (JArr xs)"
  shows "decodeVoxels atob duc parse num_str encoded =
     (if list_all record_ok xs then Some (map (copied_record num_str) xs) else None)"
  using assms by (simp add: decodeVoxels_def decode_array)

lemma decodeVoxels_Some:
  assumes "decodeVoxels atob duc parse num_str encoded = Some vs"
  shows "\<exists>b s xs. atob encoded = Inr b \<and> duc b = Inr s \<and> parse s = Inr (JArr xs) \<and>
     list_all record_ok xs \<and> vs = map (copied_record num_str) xs"
proof -
  from assms obtain b where b: "atob encoded = Inr b"
    by (cases "atob encoded") (simp_all add: decodeVoxels_def)
  from assms b obtain s where s: "duc b = Inr s"
    by (cases "duc b") (simp_all add: decodeVoxels_def)
  from assms b s obtain j where j: "parse s = Inr j"
    by (cases "parse s") (simp_all add: decodeVoxels_def)
  from assms b s j obtain xs where xs: "j = JArr xs"
    by (cases j) (simp_all add: decodeVoxels_def)
  have "parse s = Inr (JArr xs)" using j xs by simp
  from decodeVoxels_array
    [where atob = atob and duc = duc and parse = parse and num_str = num_str, OF b s this]
  have "decodeVoxels atob duc parse num_str encoded =
     (if list_all record_ok xs then Some (map (copied_record num_str) xs) else None)" .
  with assms have "list_all record_ok xs \<and> vs = map (copied_record num_str) xs"
    by (auto split: if_splits)
  then show ?thesis using b s j xs by blast
qed

lemma id_joined_copied:
  assumes "record_ok v"
  shows "id_joined num_str (copied_record num_str v)"
proof -
  have p: "plain_field v ''x''" "plain_field v ''y''" "plain_field v ''z''"
    using assms by (simp_all add: record_ok_def)
  have t: "template_string num_str (field v ''x'') = Inr (rendered num_str (field v ''x''))"
      "template_string num_str (field v ''y'') = Inr (rendered num_str (field v ''y''))"
      "template_string num_str (field v ''z'') = Inr (rendered num_str (field v ''z''))"
    using p by (simp_all add: plain_field_def template_string_plain(1))
  show ?thesis by (simp add: id_joined_def copied_record_def t)
qed

text \<open>
  C7. For every input string decodeVoxels returns either null or a complete voxel list,
  one voxel for each element of the decoded array. It returns null whenever \<open>atob\<close>,
  \<open>decodeURIComponent\<close> or \<open>JSON.parse\<close> throws and whenever the payload is not an
  array. The id of every returned voxel is the string of its \<open>x\<close>, \<open>y\<close> and \<open>z\<close> joined
  by commas.
\<close>

theorem decodeVoxels_total:
  "(decodeVoxels atob duc parse num_str encoded = None \<or>
      (\<exists>b s xs vs. atob encoded = Inr b \<and> duc b = Inr s \<and> parse s = Inr (JArr xs) \<and>
         decodeVoxels atob duc parse num_str encoded = Some vs \<and> length vs = length xs \<and>
         (\<forall>v\<in>set vs. id_joined num_str v))) \<and>
   ((\<exists>e. atob encoded = Inl e) \<longrightarrow> decodeVoxels atob duc parse num_str encoded = None) \<and>
   (\<forall>b. atob encoded = Inr b \<and> (\<exists>e. duc b = Inl e) \<longrightarrow>
      decodeVoxels atob duc parse num_str encoded = None) \<and>
   (\<forall>b s. atob encoded = Inr b \<and> duc b = Inr s \<and> (\<exists>e. parse s = Inl e) \<longrightarrow>
      decodeVoxels atob duc parse num_str encoded = None) \<and>
   (\<forall>b s j. atob encoded = Inr b \<and> duc b = Inr s \<and> parse s = Inr j \<and> (\<forall>xs. j \<noteq> JArr xs) \<longrightarrow>
      decodeVoxels atob duc parse num_str encoded = None)"
proof (intro conjI allI impI)
  show "decodeVoxels atob duc parse num_str encoded = None \<or>
      (\<exists>b s xs vs. atob encoded = Inr b \<and> duc b = Inr s \<and> parse s = Inr (JArr xs) \<and>
         decodeVoxels atob duc parse num_str encoded = Some vs \<and> length vs = length xs \<and>
         (\<forall>v\<in>set vs. id_joined num_str v))"
  proof (cases "decodeVoxels atob duc parse num_str encoded")
    case None
    then show ?thesis by simp
  next
    case (Some vs)
    from decodeVoxels_Some[OF Some] obtain b s xs where
      c: "atob encoded = Inr b" "duc b = Inr s" "parse s = Inr (JArr xs)"
         "vs = map (copied_record num_str) xs" "list_all record_ok xs"
      by blast
    have "length vs = length xs" using c(4) by simp
    moreover have "\<forall>v\<in>set vs. id_joined num_str v"
      using c(4) c(5) id_joined_copied by (auto simp: list_all_iff)
    ultimately show ?thesis using Some c(1-3) by blast
  qed
next
  assume "\<exists>e. atob encoded = Inl e"
  then show "decodeVoxels atob duc parse num_str encoded = None"
    by (auto simp: decodeVoxels_def)
next
  fix b assume "atob encoded = Inr b \<and> (\<exists>e. duc b = Inl e)"
  then show "decodeVoxels atob duc parse num_str encoded = None"
    by (auto simp: decodeVoxels_def)
next
  fix b s assume "atob encoded = Inr b \<and> duc b = Inr s \<and> (\<exists>e. parse s = Inl e)"
  then show "decodeVoxels atob duc parse num_str encoded = None"
    by (auto simp: decodeVoxels_def)
next
  fix b s j
  assume a: "atob encoded = Inr b \<and> duc b = Inr s \<and> parse s = Inr j \<and> (\<forall>xs. j \<noteq> JArr xs)"
  then have "(case j of JArr xs \<Rightarrow>
          (case map_throwing (decode_record num_str) xs of Inl e \<Rightarrow> None | Inr vs \<Rightarrow> Some vs)
      | _ \<Rightarrow> None) = None"
    by (cases j) simp_all
  then show "decodeVoxels atob duc parse num_str encoded = None"
    using a by (simp add: decodeVoxels_def)
qed

theorem decodeVoxels_total_witness:
  "decodeVoxels (\<lambda>s. Inl ()) (Inr :: string \<Rightarrow> unit + string) (\<lambda>s. Inr (JArr [])) show_int ''!'' = None \<and>
   decodeVoxels (Inr :: string \<Rightarrow> unit + string) (\<lambda>s. Inl ()) (\<lambda>s. Inr (JArr [])) show_int ''JQ=='' = None \<and>
   decodeVoxels (Inr :: string \<Rightarrow> unit + string) (Inr :: string \<Rightarrow> unit + string) (\<lambda>s. Inl ()) show_int ''[1,'' = None \<and>
   decodeVoxels (Inr :: string \<Rightarrow> unit + string) (Inr :: string \<Rightarrow> unit + string) (\<lambda>s. Inr (JObj [(''x'', JNum 1)])) show_int ''{}'' = None \<and>
   decodeVoxels (Inr :: string \<Rightarrow> unit + string) (Inr :: string \<Rightarrow> unit + string)
      (\<lambda>s. Inr (JArr [JObj [(''x'', JNum 2), (''y'', JNum 0), (''z'', JNum 2)]])) show_int ''[]''
     = Some [\<lparr>dx = Some (JNum 2), dy = Some (JNum 0), dz = Some (JNum 2),
              did = ''2,0,2'', dcolor = None\<rparr>]"
proof -
  have 1: "decodeVoxels (\<lambda>s. Inl ()) (Inr :: string \<Rightarrow> unit + string) (\<lambda>s. Inr (JArr [])) show_int ''!'' = None"
    using decodeVoxels_total[where atob = "\<lambda>s. Inl ()" and encoded = "''!''" and duc = "(Inr :: string \<Rightarrow> unit + string)"
        and parse = "\<lambda>s. Inr (JArr [])" and num_str = show_int]
    by simp
  have 2: "decodeVoxels (Inr :: string \<Rightarrow> unit + string) (\<lambda>s. Inl ()) (\<lambda>s. Inr (JArr [])) show_int ''JQ=='' = None"
    using decodeVoxels_total[where atob = "(Inr :: string \<Rightarrow> unit + string)" and encoded = "''JQ==''" and duc = "\<lambda>s. Inl ()"
        and parse = "\<lambda>s. Inr (JArr [])" and num_str = show_int]
    by simp
  have 3: "decodeVoxels (Inr :: string \<Rightarrow> unit + string) (Inr :: string \<Rightarrow> unit + string) (\<lambda>s. Inl ()) show_int ''[1,'' = None"
    using decodeVoxels_total[where atob = "(Inr :: string \<Rightarrow> unit + string)" and encoded = "''[1,''" and duc = "(Inr :: string \<Rightarrow> unit + string)"
        and parse = "\<lambda>s. Inl ()" and num_str = show_int]
    by simp
  have 4: "decodeVoxels (Inr :: string \<Rightarrow> unit + string) (Inr :: string \<Rightarrow> unit + string) (\<lambda>s. Inr (JObj [(''x'', JNum 1)])) show_int ''{}'' = None"
    using decodeVoxels_total[where atob = "(Inr :: string \<Rightarrow> unit + string)" and encoded = "''{}''" and duc = "(Inr :: string \<Rightarrow> unit + string)"
        and parse = "\<lambda>s. Inr (JObj [(''x'', JNum 1)])" and num_str = show_int]
    by simp
  have 5: "decodeVoxels (Inr :: string \<Rightarrow> unit + string) (Inr :: string \<Rightarrow> unit + string)
      (\<lambda>s. Inr (JArr [JObj [(''x'', JNum 2), (''y'', JNum 0), (''z'', JNum 2)]])) show_int ''[]''
     = Some [\<lparr>dx = Some (JNum 2), dy = Some (JNum 0), dz = Some (JNum 2),
              did = ''2,0,2'', dcolor = None\<rparr>]"
    by code_simp
  show ?thesis using 1 2 3 4 5 by blast
qed

text \<open>
  C10 (as amended). decodeVoxels does not look at the elements of the decoded array. When
  the payload parses to a JSON array in which no element is null and no element has an
  \<open>x\<close>, \<open>y\<close> or \<open>z\<close> without a string conversion (an object with a member named
  \<open>toString\<close>, or an array holding one), decoding returns a list of the same length whose
  voxels take \<open>x\<close>, \<open>y\<close>, \<open>z\<close> and the colour as the records have them (possibly
  undefined or outside the grid), the id being the strings of these raw values joined by
  commas. For every other array it returns null, because the member access or the
  template literal throws inside the \<open>try\<close>.
\<close>

theorem decodeVoxels_unvalidated:
  assumes "atob encoded = Inr b" "duc b = Inr s" "parse s = Inr (JArr xs)"
  shows "(list_all record_ok xs \<longrightarrow>
       (\<exists>vs. decodeVoxels atob duc parse num_str encoded = Some vs \<and> length vs = length xs \<and>
          (\<forall>i<length xs.
             dx (vs ! i) = field (xs ! i) ''x'' \<and> dy (vs ! i) = field (xs ! i) ''y'' \<and>
             dz (vs ! i) = field (xs ! i) ''z'' \<and> dcolor (vs ! i) = field (xs ! i) ''c'' \<and>
             (\<exists>sx sy sz.
                template_string num_str (field (xs ! i) ''x'') = Inr sx \<and>
                template_string num_str (field (xs ! i) ''y'') = Inr sy \<and>
                template_string num_str (field (xs ! i) ''z'') = Inr sz \<and>
                did (vs ! i) = sx @ '','' @ sy @ '','' @ sz)))) \<and>
     (\<not> list_all record_ok xs \<longrightarrow> decodeVoxels atob duc parse num_str encoded = None)"
proof -
  have d: "decodeVoxels atob duc parse num_str encoded =
     (if list_all record_ok xs then Some (map (copied_record num_str) xs) else None)"
    by (rule decodeVoxels_array
      [where atob = atob and duc = duc and parse = parse and num_str = num_str, OF assms])
  have f: "dx (copied_record num_str v) = field v ''x'' \<and> dy (copied_record num_str v) = field v ''y'' \<and>
      dz (copied_record num_str v) = field v ''z'' \<and> dcolor (copied_record num_str v) = field v ''c'' \<and>
      (\<exists>sx sy sz.
         template_string num_str (field v ''x'') = Inr sx \<and>
         template_string num_str (field v ''y'') = Inr sy \<and>
         template_string num_str (field v ''z'') = Inr sz \<and>
         did (copied_record num_str v) = sx @ '','' @ sy @ '','' @ sz)" if "record_ok v" for v
  proof -
    have p: "plain_field v ''x''" "plain_field v ''y''" "plain_field v ''z''"
      using that by (simp_all add: record_ok_def)
    have "template_string num_str (field v ''x'') = Inr (rendered num_str (field v ''x''))"
        "template_string num_str (field v ''y'') = Inr (rendered num_str (field v ''y''))"
        "template_string num_str (field v ''z'') = Inr (rendered num_str (field v ''z''))"
      using p by (simp_all add: plain_field_def template_string_plain(1))
    then show ?thesis by (simp add: copied_record_def)
  qed
  show ?thesis
  proof (cases "list_all record_ok xs")
    case True
    then have "record_ok (xs ! i)" if "i < length xs" for i
      using that by (simp add: list_all_length)
    then show ?thesis unfolding d using True f by simp
  next
    case False
    then show ?thesis unfolding d by simp
  qed
qed

theorem decodeVoxels_unvalidated_witness:
  "(Inr :: string \<Rightarrow> unit + string) ''WzNd'' = Inr ''WzNd'' \<and>
   (\<lambda>s. Inr (JArr [JObj [(''x'', JNum (7::int)), (''y'', JStr ''a''), (''c'', JBool True)], JNum 3]))
      ''WzNd''
     = (Inr :: int json \<Rightarrow> unit + int json) (JArr [JObj [(''x'', JNum 7), (''y'', JStr ''a''), (''c'', JBool True)], JNum 3]) \<and>
   list_all record_ok
     [JObj [(''x'', JNum (7::int)), (''y'', JStr ''a''), (''c'', JBool True)], JNum 3] \<and>
   decodeVoxels (Inr :: string \<Rightarrow> unit + string) (Inr :: string \<Rightarrow> unit + string)
      (\<lambda>s. Inr (JArr [JObj [(''x'', JNum 7), (''y'', JStr ''a''), (''c'', JBool True)], JNum 3]))
      show_int ''WzNd''
     = Some [\<lparr>dx = Some (JNum 7), dy = Some (JStr ''a''), dz = None,
              did = ''7,a,undefined'', dcolor = Some (JBool True)\<rparr>,
             \<lparr>dx = None, dy = None, dz = None,
              did = ''undefined,undefined,undefined'', dcolor = None\<rparr>] \<and>
   \<not> list_all record_ok
     [JObj [(''x'', JObj [(''toString'', JNum (1::int))]), (''y'', JNum 0), (''z'', JNum 0)]] \<and>
   decodeVoxels (Inr :: string \<Rightarrow> unit + string) (Inr :: string \<Rightarrow> unit + string)
      (\<lambda>s. Inr (JArr [JObj [(''x'', JObj [(''toString'', JNum 1)]), (''y'', JNum 0), (''z'', JNum 0)]]))
      show_int ''WzNd'' = None"
proof -
  let ?xs = "[JObj [(''x'', JNum (7::int)), (''y'', JStr ''a''), (''c'', JBool True)], JNum 3]"
  let ?ys = "[JObj [(''x'', JObj [(''toString'', JNum (1::int))]), (''y'', JNum 0), (''z'', JNum 0)]]"
  have h: "(Inr :: string \<Rightarrow> unit + string) ''WzNd'' = Inr ''WzNd''" by simp
  have p: "(\<lambda>s. Inr (JArr ?xs)) ''WzNd'' = (Inr :: int json \<Rightarrow> unit + int json) (JArr ?xs)" by simp
  have n: "list_all record_ok ?xs"
    by (simp add: record_ok_def plain_field_def field_def)
  from decodeVoxels_unvalidated[where atob = "(Inr :: string \<Rightarrow> unit + string)" and duc = "(Inr :: string \<Rightarrow> unit + string)" and parse = "\<lambda>s. Inr (JArr ?xs)"
      and num_str = show_int, OF h h p] n
  obtain vs where
    vs: "decodeVoxels (Inr :: string \<Rightarrow> unit + string) (Inr :: string \<Rightarrow> unit + string) (\<lambda>s. Inr (JArr ?xs)) show_int ''WzNd'' = Some vs"
    by auto
  have e: "decodeVoxels (Inr :: string \<Rightarrow> unit + string) (Inr :: string \<Rightarrow> unit + string) (\<lambda>s. Inr (JArr ?xs)) show_int ''WzNd''
     = Some [\<lparr>dx = Some (JNum 7), dy = Some (JStr ''a''), dz = None,
              did = ''7,a,undefined'', dcolor = Some (JBool True)\<rparr>,
             \<lparr>dx = None, dy = None, dz = None,
              did = ''undefined,undefined,undefined'', dcolor = None\<rparr>]"
    by code_simp
  have m: "\<not> list_all record_ok ?ys"
    by (simp add: record_ok_def plain_field_def field_def)
  have q: "(\<lambda>s. Inr (JArr ?ys)) ''WzNd'' = (Inr :: int json \<Rightarrow> unit + int json) (JArr ?ys)" by simp
  have z: "decodeVoxels (Inr :: string \<Rightarrow> unit + string) (Inr :: string \<Rightarrow> unit + string) (\<lambda>s. Inr (JArr ?ys)) show_int ''WzNd'' = None"
    using decodeVoxels_unvalidated[where atob = "(Inr :: string \<Rightarrow> unit + string)" and duc = "(Inr :: string \<Rightarrow> unit + string)"
      and parse = "\<lambda>s. Inr (JArr ?ys)" and num_str = show_int, OF h h q] m
    by blast
  show ?thesis using h p n e m z by blast
qed

theorem decodeVoxels_null_element_counterexample:
  "decodeVoxels
     (\<lambda>s. if s = ''W251bGxd'' then Inr ''[null]'' else Inl ())
     Inr
     (\<lambda>s. if s = ''[null]'' then Inr (JArr [JNull]) else Inl ())
     show_int ''W251bGxd'' = None"
  by (simp add: decodeVoxels_def decode_record_def)

end
